theory Spec2Isabelle
  imports Complex_Main "HOL-Library.Sublist"
begin

section \<open>The dynamic environment map manager\<close>

text \<open>
  A shallow embedding of \<^verbatim>\<open>packages/engine/Source/Scene/DynamicEnvironmentMapManager.js\<close>.

  JavaScript objects that are shared by reference (compute commands, GPU resources, the
  counter captured by the convolution callbacks) live in explicit stores: a reference is
  an index into a list, and allocation appends to it. \<^verbatim>\<open>undefined\<close> is \<open>None\<close>.
  JavaScript numbers are modelled as exact reals; the texture sizes are powers of two and
  are exact in both. The mip level count is a natural number.

  An exception leaves the manager as it is at the \<^verbatim>\<open>throw\<close>: a function that can
  raise returns either the error with the world reached so far, or its result.
\<close>

subsection \<open>Values\<close>

type_synonym ref = nat

datatype 'a cartesian3 = Cartesian3 (cx: 'a) (cy: 'a) (cz: 'a)

datatype cartesian2 = Cartesian2 (c2x: real) (c2y: real)

datatype face = PositiveX | NegativeX | PositiveY | NegativeY | PositiveZ | NegativeZ

datatype error = RangeError | TypeError | DeveloperError

datatype pixelDatatype = UNSIGNED_BYTE | FLOAT

datatype textureMinificationFilter = LINEAR_MIPMAP_LINEAR

datatype resourceKind =
  CubeMapK | TextureK | ShaderSourceK | ShaderProgramK | VertexArrayK | FramebufferK

text \<open>
  A GPU-side object made through the rendering context. For a cube map, \<open>sampler\<close> is
  the sampler installed on it, \<open>mipmapsGenerated\<close> counts the calls of
  \<^verbatim>\<open>generateMipmap\<close>, and \<open>faceCopies\<close> lists the copies made into its faces
  (face, mip level, source texture). \<open>attachments\<close> are a framebuffer's colour textures.
\<close>

record resource =
  kind :: resourceKind
  texWidth :: real
  texHeight :: real
  texDatatype :: "pixelDatatype option"
  attachments :: "ref option list"
  destroyed :: bool
  sampler :: "textureMinificationFilter option"
  mipmapsGenerated :: nat
  faceCopies :: "(face \<times> nat \<times> ref option) list"

text \<open>
  The uniform map of a command: the values its closures capture when the command is
  built. For a radiance command these are the radii vector, the east-north-up matrix,
  the position and the face; the atmosphere's parameters are read from the frame's
  atmosphere when the task runs and are left out. The source writes the matrix into one
  object that all radiance commands share; the six commands of a stage are built for the
  same position, and the matrix is recorded here as it is when the command is built.
\<close>

type_synonym matrix4 = "real list"

datatype uniformMap =
    RadianceUniforms (u_radiiAndDynamicAtmosphereColor: "real cartesian3")
      (u_enuToFixedFrame: matrix4) (u_positionWC: "real cartesian3 option")
      (u_faceDirectionR: face)
  | ConvolutionUniforms (u_roughness: real) (u_radianceTexture: ref) (u_faceDirection: face)
  | IrradianceUniforms

text \<open>
  The three \<^verbatim>\<open>postExecute\<close> closures with what they capture: the cube map the face
  belongs to, the slot index and the face; for a convolution task also the cell of the
  \<^verbatim>\<open>facesCopied\<close> counter of the invocation that built it, its output texture and
  its mip level.
\<close>

datatype callback =
    RadiancePostExecute ref nat face
  | ConvolutionPostExecute ref ref nat ref face nat
  | IrradiancePostExecute

record command =
  canceled :: bool
  outputTexture :: ref
  persists :: bool
  uniforms :: uniformMap
  postExecute :: callback

subsection \<open>The manager and the objects it reaches\<close>

text \<open>
  \<open>irradianceComputeCommand\<close> is the property the constructor and
  \<^verbatim>\<open>updateIrradianceResources\<close> write; \<open>irradianceMapComputeCommand\<close> is the property
  \<^verbatim>\<open>_reset\<close> and \<^verbatim>\<open>destroy\<close> read. They are two properties of the object: the
  second one is never assigned a command, so it reads \<^verbatim>\<open>undefined\<close>.
\<close>

record manager =
  position :: "real cartesian3 option"
  radianceCommandsDirty :: bool
  radianceMapDirty :: bool
  convolutionsCommandsDirty :: bool
  irradianceCommandDirty :: bool
  irradianceTextureDirty :: bool
  sphericalHarmonicCoefficientsDirty :: bool
  mipmapLevels :: nat
  radianceMapComputeCommands :: "ref option list"
  convolutionComputeCommands :: "ref option list"
  irradianceComputeCommand :: "ref option"
  irradianceMapComputeCommand :: "ref option"
  radianceMapFS :: "ref option"
  irradianceMapFS :: "ref option"
  convolveSP :: "ref option"
  va :: "ref option"
  radianceMapTextures :: "ref option list"
  specularMapTextures :: "ref option list"
  radianceCubeMap :: "ref option"
  irradianceMapTexture :: "ref option"
  sphericalHarmonicCoefficients :: "real option cartesian3 option list"
  lastTime :: real
  textureDimensions :: cartesian2
  enabled :: bool
  maximumSecondsDifference :: real

text \<open>
  The world is the manager with the stores of the objects it shares with the execution
  engine: the compute commands, the GPU resources, the \<^verbatim>\<open>facesCopied\<close> counters, and
  the outgoing command list, which holds the tasks handed to the engine that it has not
  yet run.
\<close>

record world = manager +
  commands :: "command list"
  resources :: "resource list"
  facesCopied :: "nat list"
  commandList :: "ref list"

text \<open>
  What a frame gives to \<^verbatim>\<open>update\<close>: its time, what \<^verbatim>\<open>readPixels\<close> returns, and
  the three helpers of other files that the radiance stage calls, taken as parameters:
  \<^verbatim>\<open>scaleToGeodeticSurface\<close> of the frame's ellipsoid, which may return
  \<^verbatim>\<open>undefined\<close>, \<^verbatim>\<open>Cartesian3.magnitude\<close>, and
  \<^verbatim>\<open>Transforms.eastNorthUpToFixedFrame\<close> for the frame's ellipsoid. Each is given an
  argument that may be \<^verbatim>\<open>undefined\<close>, and returns or raises.
\<close>

record frameState =
  time :: real
  readPixels :: "real list"
  ellipsoid_scaleToGeodeticSurface :: "real cartesian3 option \<Rightarrow> error + real cartesian3 option"
  Cartesian3_magnitude :: "real cartesian3 option \<Rightarrow> error + real"
  Transforms_eastNorthUpToFixedFrame :: "real cartesian3 option \<Rightarrow> error + matrix4"

subsection \<open>Arrays\<close>

text \<open>
  Reading a JavaScript array out of range gives \<^verbatim>\<open>undefined\<close>; writing out of range
  extends the array with holes.
\<close>

definition array_get :: "'a option list \<Rightarrow> nat \<Rightarrow> 'a option" where
  "array_get xs i = (if i < length xs then xs ! i else None)"

definition array_set :: "'a option list \<Rightarrow> nat \<Rightarrow> 'a option \<Rightarrow> 'a option list" where
  "array_set xs i v =
     (if i < length xs then xs[i := v] else xs @ replicate (i - length xs) None @ [v])"

definition typed_get :: "real list \<Rightarrow> nat \<Rightarrow> real option" where
  "typed_get xs i = (if i < length xs then Some (xs ! i) else None)"

subsection \<open>Helpers of other files\<close>

text \<open>The distance of two positions, and its square.\<close>

definition distanceSquared :: "real cartesian3 \<Rightarrow> real cartesian3 \<Rightarrow> real" where
  "distanceSquared a b = (cx a - cx b)\<^sup>2 + (cy a - cy b)\<^sup>2 + (cz a - cz b)\<^sup>2"

definition distance :: "real cartesian3 \<Rightarrow> real cartesian3 \<Rightarrow> real" where
  "distance a b = sqrt (distanceSquared a b)"

type_synonym comparison = "real cartesian3 option \<Rightarrow> real cartesian3 option \<Rightarrow> real \<Rightarrow> bool"

text \<open>
  Modelled from the spec: \<^verbatim>\<open>Cartesian3.equalsEpsilon\<close> of \<^verbatim>\<open>Core/Cartesian3.js\<close>,
  which is not in this file. The spec says a position within epsilon of the current one
  is the same position; the comparison is written on the squares of the distance and of
  epsilon, which can be computed. The spec has no words for a comparison in which a
  position is absent: what the helper answers there is the parameter \<open>absent\<close>.
\<close>

definition Cartesian3_equalsEpsilon ::
  "comparison \<Rightarrow> real cartesian3 option \<Rightarrow> real cartesian3 option \<Rightarrow> real \<Rightarrow> bool" where
  "Cartesian3_equalsEpsilon absent left right epsilon =
     (case left of
        None \<Rightarrow> absent left right epsilon
      | Some a \<Rightarrow>
          (case right of
             None \<Rightarrow> absent left right epsilon
           | Some b \<Rightarrow> 0 \<le> epsilon \<and> distanceSquared a b \<le> epsilon\<^sup>2))"

text \<open>Modelled from the spec: the epsilon of the position comparison, \<^verbatim>\<open>CesiumMath.EPSILON8\<close>.\<close>

definition EPSILON8 :: real where
  "EPSILON8 = 1 / 10 ^ 8"

text \<open>
  Modelled from the spec: \<^verbatim>\<open>JulianDate.equalsEpsilon\<close> of \<^verbatim>\<open>Core/JulianDate.js\<close>.
  Times are seconds; two times are equal when they differ by no more than the threshold.
\<close>

definition JulianDate_equalsEpsilon :: "real \<Rightarrow> real \<Rightarrow> real \<Rightarrow> bool" where
  "JulianDate_equalsEpsilon left right epsilon = (\<bar>left - right\<bar> \<le> epsilon)"

text \<open>
  Modelled from the spec: \<^verbatim>\<open>Cartesian3.unpack\<close>, which reads three consecutive
  numbers of an array from a starting index.
\<close>

definition Cartesian3_unpack :: "real list \<Rightarrow> nat \<Rightarrow> real option cartesian3" where
  "Cartesian3_unpack array startingIndex =
     Cartesian3 (typed_get array startingIndex) (typed_get array (startingIndex + 1))
       (typed_get array (startingIndex + 2))"

text \<open>Modelled from the spec: the six faces of a cube map, in the order they are visited.\<close>

definition faceNames :: "face list" where
  "faceNames = [PositiveX, NegativeX, PositiveY, NegativeY, PositiveZ, NegativeZ]"

subsection \<open>The rendering context\<close>

text \<open>
  Making a resource appends it to the store. The constructors are other files; they are
  taken to succeed, whatever their arguments.
\<close>

definition newResource :: "resourceKind \<Rightarrow> real \<Rightarrow> real \<Rightarrow> pixelDatatype option \<Rightarrow> resource" where
  "newResource k w h d =
     \<lparr>kind = k, texWidth = w, texHeight = h, texDatatype = d, attachments = [],
      destroyed = False, sampler = None, mipmapsGenerated = 0, faceCopies = []\<rparr>"

definition modifyResource :: "ref \<Rightarrow> (resource \<Rightarrow> resource) \<Rightarrow> world \<Rightarrow> world" where
  "modifyResource r f w = w\<lparr>resources := (resources w)[r := f (resources w ! r)]\<rparr>"

definition destroyResource :: "ref option \<Rightarrow> world \<Rightarrow> world" where
  "destroyResource r w =
     (case r of None \<Rightarrow> w | Some t \<Rightarrow> modifyResource t (\<lambda>x. x\<lparr>destroyed := True\<rparr>) w)"

subsection \<open>The constructor\<close>

definition DynamicEnvironmentMapManager :: "nat option \<Rightarrow> error + world" where
  "DynamicEnvironmentMapManager options_mipmapLevels =
     (let mipmapLevels = (case options_mipmapLevels of None \<Rightarrow> 10 | Some n \<Rightarrow> n) in
      if mipmapLevels = 0 then Inl RangeError
      else
        let width = 2 ^ (mipmapLevels - 1) in
        Inr \<lparr>position = None,
             radianceCommandsDirty = True,
             radianceMapDirty = True,
             convolutionsCommandsDirty = False,
             irradianceCommandDirty = False,
             irradianceTextureDirty = False,
             sphericalHarmonicCoefficientsDirty = False,
             mipmapLevels = mipmapLevels,
             radianceMapComputeCommands = replicate 6 None,
             convolutionComputeCommands = replicate ((mipmapLevels - 1) * 6) None,
             irradianceComputeCommand = None,
             irradianceMapComputeCommand = None,
             radianceMapFS = None,
             irradianceMapFS = None,
             convolveSP = None,
             va = None,
             radianceMapTextures = replicate 6 None,
             specularMapTextures = replicate ((mipmapLevels - 1) * 6) None,
             radianceCubeMap = None,
             irradianceMapTexture = None,
             sphericalHarmonicCoefficients = replicate 9 None,
             lastTime = 0,
             textureDimensions = Cartesian2 width width,
             enabled = True,
             maximumSecondsDifference = 60 * 20,
             commands = [],
             resources = [],
             facesCopied = [],
             commandList = []\<rparr>)"

subsection \<open>Invalidation\<close>

fun cancel :: "ref option \<Rightarrow> command list \<Rightarrow> command list" where
  "cancel None cs = cs"
| "cancel (Some c) cs = cs[c := (cs ! c)\<lparr>canceled := True\<rparr>]"

text \<open>The loop of \<^verbatim>\<open>_reset\<close> over one task array, on the array and the command store.\<close>

fun cancelAndClear ::
  "nat list \<Rightarrow> ref option list \<times> command list \<Rightarrow> ref option list \<times> command list" where
  "cancelAndClear [] s = s"
| "cancelAndClear (i # rest) (slots, cs) =
     cancelAndClear rest (array_set slots i None, cancel (array_get slots i) cs)"

definition reset :: "world \<Rightarrow> world" where
  "reset w =
     (let (rs, cs1) =
            cancelAndClear [0..<length (radianceMapComputeCommands w)]
              (radianceMapComputeCommands w, commands w);
          (vs, cs2) =
            cancelAndClear [0..<length (convolutionComputeCommands w)]
              (convolutionComputeCommands w, cs1)
      in (case irradianceMapComputeCommand w of
            None \<Rightarrow>
              w\<lparr>radianceMapComputeCommands := rs, convolutionComputeCommands := vs,
                commands := cs2, radianceMapDirty := True, radianceCommandsDirty := True\<rparr>
          | Some c \<Rightarrow>
              w\<lparr>radianceMapComputeCommands := rs, convolutionComputeCommands := vs,
                irradianceMapComputeCommand := None,
                commands := cancel (Some c) cs2,
                radianceMapDirty := True, radianceCommandsDirty := True\<rparr>))"

definition set_position :: "comparison \<Rightarrow> real cartesian3 option \<Rightarrow> world \<Rightarrow> world" where
  "set_position absent v w =
     (if Cartesian3_equalsEpsilon absent v (position w) EPSILON8 then w
      else reset (w\<lparr>position := v\<rparr>))"

subsection \<open>Radiance capture\<close>

definition allocate :: "resource \<Rightarrow> world \<Rightarrow> world" where
  "allocate r w = w\<lparr>resources := resources w @ [r]\<rparr>"

definition pushCommand :: "command \<Rightarrow> world \<Rightarrow> world" where
  "pushCommand c w =
     w\<lparr>commands := commands w @ [c], commandList := commandList w @ [length (commands w)]\<rparr>"

text \<open>
  One iteration of the loop over the cube map's faces. The face texture is made when the
  slot is empty. Then the position is scaled to the ellipsoid's surface, the length of
  the surface point is taken and the east-north-up frame at the position is computed;
  each of the three calls may raise, and then the iteration ends there, with the texture
  made and no command built. Otherwise the command is built, pushed on the frame's list
  and stored in slot \<open>i\<close>.
\<close>

definition radianceFace ::
  "frameState \<Rightarrow> ref \<Rightarrow> ref \<Rightarrow> nat \<times> face \<Rightarrow> world \<Rightarrow> error \<times> world + world" where
  "radianceFace frameState cubeMap fs p w =
     (let i = fst p; face = snd p;
          w1 = (case array_get (radianceMapTextures w) i of
                  Some t \<Rightarrow> w
                | None \<Rightarrow>
                    (allocate
                       (newResource TextureK (c2x (textureDimensions w))
                          (c2y (textureDimensions w)) (Some UNSIGNED_BYTE)) w)
                    \<lparr>radianceMapTextures :=
                        array_set (radianceMapTextures w) i (Some (length (resources w)))\<rparr>);
          texture = the (array_get (radianceMapTextures w1) i)
      in case ellipsoid_scaleToGeodeticSurface frameState (position w1) of
           Inl e \<Rightarrow> Inl (e, w1)
         | Inr surfacePosition \<Rightarrow>
             (case Cartesian3_magnitude frameState surfacePosition of
                Inl e \<Rightarrow> Inl (e, w1)
              | Inr radius \<Rightarrow>
                  (case Transforms_eastNorthUpToFixedFrame frameState (position w1) of
                     Inl e \<Rightarrow> Inl (e, w1)
                   | Inr enuToFixedFrame \<Rightarrow>
                       (let command =
                              \<lparr>canceled = False, outputTexture = texture, persists = False,
                               uniforms =
                                 RadianceUniforms (Cartesian3 (radius * (1025 / 1000)) radius 1)
                                   enuToFixedFrame (position w1) face,
                               postExecute = RadiancePostExecute cubeMap i face\<rparr>
                        in Inr ((pushCommand command w1)
                                \<lparr>radianceMapComputeCommands :=
                                    array_set (radianceMapComputeCommands w1) i
                                      (Some (length (commands w1)))\<rparr>)))))"

text \<open>The loop: it ends at the first iteration that raises.\<close>

fun radianceFaces ::
  "frameState \<Rightarrow> ref \<Rightarrow> ref \<Rightarrow> (nat \<times> face) list \<Rightarrow> world \<Rightarrow> error \<times> world + world" where
  "radianceFaces frameState cubeMap fs [] w = Inr w"
| "radianceFaces frameState cubeMap fs (p # ps) w =
     (case radianceFace frameState cubeMap fs p w of
        Inl e \<Rightarrow> Inl e
      | Inr w1 \<Rightarrow> radianceFaces frameState cubeMap fs ps w1)"

definition updateRadianceMap :: "frameState \<Rightarrow> world \<Rightarrow> error \<times> world + world" where
  "updateRadianceMap frameState w =
     (let w1 = (case radianceCubeMap w of
                  Some c \<Rightarrow> w
                | None \<Rightarrow>
                    (allocate
                       (newResource CubeMapK (c2x (textureDimensions w))
                          (c2y (textureDimensions w)) (Some UNSIGNED_BYTE)) w)
                    \<lparr>radianceCubeMap := Some (length (resources w))\<rparr>)
      in if radianceCommandsDirty w1 then
           (let w2 = (case radianceMapFS w1 of
                        Some s \<Rightarrow> w1
                      | None \<Rightarrow>
                          (allocate (newResource ShaderSourceK 0 0 None) w1)
                          \<lparr>radianceMapFS := Some (length (resources w1))\<rparr>)
            in case radianceFaces frameState (the (radianceCubeMap w2)) (the (radianceMapFS w2))
                      (zip [0..<6] faceNames) w2 of
                 Inl e \<Rightarrow> Inl e
               | Inr w3 \<Rightarrow> Inr (w3\<lparr>radianceCommandsDirty := False\<rparr>))
         else Inr w1)"

subsection \<open>Specular convolution\<close>

text \<open>
  One iteration of the inner loop: a new texture of the level's size is stored at
  \<open>(level - 1) * 6 + faceIndex\<close>, the vertex array and the shader program are made
  when absent, and the command is stored at the same index and pushed.
\<close>

definition convolutionFace ::
  "ref \<Rightarrow> ref \<Rightarrow> nat \<Rightarrow> nat \<Rightarrow> real \<Rightarrow> real \<Rightarrow> nat \<times> face \<Rightarrow> world \<Rightarrow> world" where
  "convolutionFace cubeMap cell mipLevels level width height p w =
     (let faceIndex = fst p; face = snd p;
          index = (level - 1) * 6 + faceIndex;
          texture = length (resources w);
          w1 = (allocate (newResource TextureK width height (Some UNSIGNED_BYTE)) w)
                 \<lparr>specularMapTextures := array_set (specularMapTextures w) index (Some texture)\<rparr>;
          w2 = (case va w1 of
                  Some v \<Rightarrow> w1
                | None \<Rightarrow>
                    (allocate (newResource VertexArrayK 0 0 None) w1)
                    \<lparr>va := Some (length (resources w1))\<rparr>);
          w3 = (case convolveSP w2 of
                  Some s \<Rightarrow> w2
                | None \<Rightarrow>
                    (allocate (newResource ShaderProgramK 0 0 None) w2)
                    \<lparr>convolveSP := Some (length (resources w2))\<rparr>);
          command = \<lparr>canceled = False, outputTexture = texture, persists = True,
                     uniforms =
                       ConvolutionUniforms (real level / (real mipLevels - 1)) cubeMap face,
                     postExecute = ConvolutionPostExecute cubeMap cell index texture face level\<rparr>
      in pushCommand command
           (w3\<lparr>convolutionComputeCommands :=
                 array_set (convolutionComputeCommands w3) index (Some (length (commands w3)))\<rparr>))"

text \<open>The outer loop over the levels; the size halves after each level.\<close>

fun convolutionLevels ::
  "ref \<Rightarrow> ref \<Rightarrow> nat \<Rightarrow> nat list \<Rightarrow> real \<Rightarrow> real \<Rightarrow> world \<Rightarrow> world" where
  "convolutionLevels cubeMap cell mipLevels [] width height w = w"
| "convolutionLevels cubeMap cell mipLevels (level # rest) width height w =
     convolutionLevels cubeMap cell mipLevels rest (width / 2) (height / 2)
       (fold (convolutionFace cubeMap cell mipLevels level width height)
          (zip [0..<6] faceNames) w)"

text \<open>
  \<^verbatim>\<open>radianceCubeMap.generateMipmap()\<close> is a call on the property's value: it throws a
  TypeError when there is no cube map.
\<close>

definition updateSpecularMaps :: "frameState \<Rightarrow> world \<Rightarrow> error \<times> world + world" where
  "updateSpecularMaps frameState w =
     (case radianceCubeMap w of
        None \<Rightarrow> Inl (TypeError, w)
      | Some cubeMap \<Rightarrow>
          (let w1 = modifyResource cubeMap
                      (\<lambda>r. r\<lparr>mipmapsGenerated := mipmapsGenerated r + 1\<rparr>) w;
               width = c2x (textureDimensions w1) / 2;
               height = c2y (textureDimensions w1) / 2;
               cell = length (facesCopied w1);
               w2 = w1\<lparr>facesCopied := facesCopied w1 @ [0]\<rparr>
           in Inr (convolutionLevels cubeMap cell (mipmapLevels w2) [1..<mipmapLevels w2]
                     width height w2)))"

subsection \<open>Irradiance and coefficients\<close>

definition updateIrradianceResources :: "frameState \<Rightarrow> world \<Rightarrow> world" where
  "updateIrradianceResources frameState w =
     (let w1 = (case irradianceMapTexture w of
                  Some t \<Rightarrow> w
                | None \<Rightarrow>
                    (allocate (newResource TextureK 3 3 (Some FLOAT)) w)
                    \<lparr>irradianceMapTexture := Some (length (resources w))\<rparr>);
          w2 = (case irradianceMapFS w1 of
                  Some s \<Rightarrow> w1
                | None \<Rightarrow>
                    (allocate (newResource ShaderSourceK 0 0 None) w1)
                    \<lparr>irradianceMapFS := Some (length (resources w1))\<rparr>);
          command = \<lparr>canceled = False, outputTexture = the (irradianceMapTexture w2),
                     persists = False, uniforms = IrradianceUniforms,
                     postExecute = IrradiancePostExecute\<rparr>
      in (pushCommand command (w2\<lparr>irradianceComputeCommand := Some (length (commands w2))\<rparr>))
         \<lparr>irradianceTextureDirty := True\<rparr>)"

definition newFramebuffer :: "ref option \<Rightarrow> resource" where
  "newFramebuffer texture = (newResource FramebufferK 0 0 None)\<lparr>attachments := [texture]\<rparr>"

definition updateSphericalHarmonicCoefficients :: "frameState \<Rightarrow> world \<Rightarrow> world" where
  "updateSphericalHarmonicCoefficients frameState w =
     (let framebuffer = length (resources w);
          w1 = allocate (newFramebuffer (irradianceMapTexture w)) w;
          data = readPixels frameState;
          w2 = fold (\<lambda>i v. v\<lparr>sphericalHarmonicCoefficients :=
                               array_set (sphericalHarmonicCoefficients v) i
                                 (Some (Cartesian3_unpack data (i * 4)))\<rparr>)
                 [0..<9] w1
      in destroyResource (Some framebuffer) w2)"

subsection \<open>The sequencer\<close>

text \<open>
  The result of \<^verbatim>\<open>update\<close> is \<open>Some False\<close> for \<^verbatim>\<open>return false\<close>, \<open>Some True\<close>
  for \<^verbatim>\<open>return true\<close>, and \<open>None\<close> where the function ends without a
  \<^verbatim>\<open>return\<close>, which gives \<^verbatim>\<open>undefined\<close>.
\<close>

definition update :: "frameState \<Rightarrow> world \<Rightarrow> error \<times> world + world \<times> bool option" where
  "update frameState w0 =
     (if \<not> enabled w0 \<or> position w0 = None then Inr (w0, Some False)
      else
        let w = (if \<not> JulianDate_equalsEpsilon (time frameState) (lastTime w0)
                        (maximumSecondsDifference w0)
                 then (reset w0)\<lparr>lastTime := time frameState\<rparr>
                 else w0)
        in if radianceMapDirty w then
             (case updateRadianceMap frameState w of
                Inl e \<Rightarrow> Inl e
              | Inr w1 \<Rightarrow> Inr (w1\<lparr>radianceMapDirty := False\<rparr>, Some False))
           else if convolutionsCommandsDirty w then
             (case updateSpecularMaps frameState w of
                Inl e \<Rightarrow> Inl e
              | Inr w1 \<Rightarrow> Inr (w1\<lparr>convolutionsCommandsDirty := False\<rparr>, Some False))
           else
             let w2 = (if irradianceCommandDirty w
                       then (updateIrradianceResources frameState w)
                            \<lparr>irradianceCommandDirty := False\<rparr>
                       else w)
             in if irradianceTextureDirty w2 then Inr (w2, Some False)
                else if sphericalHarmonicCoefficientsDirty w2 then
                  Inr ((updateSphericalHarmonicCoefficients frameState w2)
                       \<lparr>sphericalHarmonicCoefficientsDirty := False\<rparr>, Some True)
                else Inr (w2, None))"

subsection \<open>Completion callbacks\<close>

definition radiancePostExecute :: "ref \<Rightarrow> nat \<Rightarrow> face \<Rightarrow> world \<Rightarrow> world" where
  "radiancePostExecute cubeMap index face w =
     (let w1 = w\<lparr>radianceMapComputeCommands :=
                   array_set (radianceMapComputeCommands w) index None\<rparr>;
          framebuffer = length (resources w1);
          texture = array_get (radianceMapTextures w1) index;
          w2 = allocate (newFramebuffer texture) w1;
          w3 = modifyResource cubeMap
                 (\<lambda>r. r\<lparr>faceCopies := faceCopies r @ [(face, 0, texture)]\<rparr>) w2;
          w4 = destroyResource (Some framebuffer) w3
      in if \<not> (\<exists>c \<in> set (radianceMapComputeCommands w4). c \<noteq> None)
         then w4\<lparr>convolutionsCommandsDirty := True\<rparr>
         else w4)"

definition convolutionPostExecute ::
  "ref \<Rightarrow> ref \<Rightarrow> nat \<Rightarrow> ref \<Rightarrow> face \<Rightarrow> nat \<Rightarrow> world \<Rightarrow> world" where
  "convolutionPostExecute cubeMap cell index texture face level w =
     (let w1 = w\<lparr>convolutionComputeCommands :=
                   array_set (convolutionComputeCommands w) index None\<rparr>;
          w2 = modifyResource cubeMap
                 (\<lambda>r. r\<lparr>faceCopies := faceCopies r @ [(face, level, Some texture)]\<rparr>) w1;
          w3 = w2\<lparr>facesCopied := (facesCopied w2)[cell := facesCopied w2 ! cell + 1]\<rparr>
      in if facesCopied w3 ! cell = length (specularMapTextures w3)
         then modifyResource cubeMap (\<lambda>r. r\<lparr>sampler := Some LINEAR_MIPMAP_LINEAR\<rparr>)
                (w3\<lparr>irradianceCommandDirty := True\<rparr>)
         else w3)"

definition irradiancePostExecute :: "world \<Rightarrow> world" where
  "irradiancePostExecute w =
     w\<lparr>irradianceTextureDirty := False, irradianceComputeCommand := None,
       sphericalHarmonicCoefficientsDirty := True\<rparr>"

fun runCallback :: "callback \<Rightarrow> world \<Rightarrow> world" where
  "runCallback (RadiancePostExecute cubeMap index face) w =
     radiancePostExecute cubeMap index face w"
| "runCallback (ConvolutionPostExecute cubeMap cell index texture face level) w =
     convolutionPostExecute cubeMap cell index texture face level w"
| "runCallback IrradiancePostExecute w = irradiancePostExecute w"

subsection \<open>Teardown\<close>

text \<open>
  \<^verbatim>\<open>destroy\<close> cancels the commands in the slots without clearing the slots, destroys
  the textures of both arrays, the cube map and the irradiance texture and empties their
  slots. The object is then handed to \<^verbatim>\<open>destroyObject\<close>, another file; no operation
  on a destroyed manager is modelled.
\<close>

definition destroyTextures :: "ref option list \<Rightarrow> world \<Rightarrow> world" where
  "destroyTextures ts w = fold destroyResource ts w"

definition destroy :: "world \<Rightarrow> world" where
  "destroy w =
     (let cs1 = fold cancel (radianceMapComputeCommands w) (commands w);
          cs2 = fold cancel (convolutionComputeCommands w) cs1;
          cs3 = cancel (irradianceMapComputeCommand w) cs2;
          w1 = w\<lparr>commands := cs3\<rparr>;
          w2 = (destroyTextures (radianceMapTextures w1) w1)
                 \<lparr>radianceMapTextures := replicate (length (radianceMapTextures w1)) None\<rparr>;
          w3 = (destroyTextures (specularMapTextures w2) w2)
                 \<lparr>specularMapTextures := replicate (length (specularMapTextures w2)) None\<rparr>;
          w4 = (destroyResource (radianceCubeMap w3) w3)\<lparr>radianceCubeMap := None\<rparr>
      in (destroyResource (irradianceMapTexture w4) w4)\<lparr>irradianceMapTexture := None\<rparr>)"

subsection \<open>The execution engine\<close>

text \<open>
  Modelled from the spec: the engine that runs the tasks, which is not in this file. It
  accepts the tasks that \<^verbatim>\<open>update\<close> pushes on the outgoing list and runs them later,
  one at a time and in any order, calling the completion callback of each; a canceled
  task's callback is not called. \<open>execute\<close> is the engine running a task.
\<close>

definition execute :: "ref \<Rightarrow> world \<Rightarrow> world" where
  "execute c w =
     (if c < length (commands w) \<and> \<not> canceled (commands w ! c)
      then runCallback (postExecute (commands w ! c)) w
      else w)"


text \<open>
  Modelled from the spec: the engine completing every pending task, in the order of the
  list.
\<close>

definition executeFrame :: "world \<Rightarrow> world" where
  "executeFrame w = (fold execute (commandList w) w)\<lparr>commandList := []\<rparr>"

text \<open>One frame: the sequencer, then the engine on the tasks it issued, in order.\<close>

definition frame :: "frameState \<Rightarrow> world \<Rightarrow> error \<times> world + world \<times> bool option" where
  "frame frameState w =
     (case update frameState w of
        Inl e \<Rightarrow> Inl e
      | Inr (w1, r) \<Rightarrow> Inr (executeFrame w1, r))"

subsection \<open>The sequencer in the words of the spec\<close>

text \<open>
  The spec describes \<^verbatim>\<open>update\<close> as a state machine: after the staleness check, the
  flags are read in a fixed order and the first one that is set selects the stage.
  These definitions follow the spec's words; \<open>update\<close> above follows the code.
\<close>

datatype stage =
  RadianceCapture | SpecularConvolution | IrradianceSetup | AwaitingGPU | CoefficientExtraction

definition firstFlag :: "world \<Rightarrow> stage option" where
  "firstFlag w =
     (if radianceMapDirty w then Some RadianceCapture
      else if convolutionsCommandsDirty w then Some SpecularConvolution
      else if irradianceCommandDirty w then Some IrradianceSetup
      else if irradianceTextureDirty w then Some AwaitingGPU
      else if sphericalHarmonicCoefficientsDirty w then Some CoefficientExtraction
      else None)"

fun stageSetup ::
  "frameState \<Rightarrow> stage \<Rightarrow> world \<Rightarrow> error \<times> world + world \<times> bool option" where
  "stageSetup frameState RadianceCapture w =
     (case updateRadianceMap frameState w of
        Inl e \<Rightarrow> Inl e
      | Inr w1 \<Rightarrow> Inr (w1\<lparr>radianceMapDirty := False\<rparr>, Some False))"
| "stageSetup frameState SpecularConvolution w =
     (case updateSpecularMaps frameState w of
        Inl e \<Rightarrow> Inl e
      | Inr w1 \<Rightarrow> Inr (w1\<lparr>convolutionsCommandsDirty := False\<rparr>, Some False))"
| "stageSetup frameState IrradianceSetup w =
     Inr ((updateIrradianceResources frameState w)\<lparr>irradianceCommandDirty := False\<rparr>,
          Some False)"
| "stageSetup frameState AwaitingGPU w = Inr (w, Some False)"
| "stageSetup frameState CoefficientExtraction w =
     Inr ((updateSphericalHarmonicCoefficients frameState w)
          \<lparr>sphericalHarmonicCoefficientsDirty := False\<rparr>, Some True)"

definition sequencer ::
  "frameState \<Rightarrow> world \<Rightarrow> error \<times> world + world \<times> bool option" where
  "sequencer frameState w =
     (case firstFlag w of
        None \<Rightarrow> Inr (w, None)
      | Some s \<Rightarrow> stageSetup frameState s w)"

definition stalenessCheck :: "frameState \<Rightarrow> world \<Rightarrow> world" where
  "stalenessCheck frameState w =
     (if \<bar>time frameState - lastTime w\<bar> \<le> maximumSecondsDifference w then w
      else (reset w)\<lparr>lastTime := time frameState\<rparr>)"

subsection \<open>Runs\<close>

text \<open>A run of frames, with the result of each \<^verbatim>\<open>update\<close>; it stops at an exception.\<close>

fun frames ::
  "frameState list \<Rightarrow> world \<Rightarrow> error \<times> world + world \<times> bool option list" where
  "frames [] w = Inr (w, [])"
| "frames (f # fs) w =
     (case frame f w of
        Inl e \<Rightarrow> Inl e
      | Inr (w1, r) \<Rightarrow>
          (case frames fs w1 of Inl e \<Rightarrow> Inl e | Inr (w2, rs) \<Rightarrow> Inr (w2, r # rs)))"




text \<open>
  Concrete inputs. A comparison that equates two absent positions and tells an absent
  position from a present one; a manager with \<open>n\<close> mip levels, given a position
  under that comparison; and a frame. The frame's ellipsoid has no surface point for its
  centre and has every other position on its surface; the sum of the absolute values
  stands for the length, which cannot be evaluated; the frame at a position is the
  translation to it. The helpers raise when their argument is absent.
\<close>

definition absentApart :: comparison where
  "absentApart left right epsilon = (left = None \<and> right = None)"

definition newManager :: "nat \<Rightarrow> world" where
  "newManager n = projr (DynamicEnvironmentMapManager (Some n))"

definition positioned :: "nat \<Rightarrow> world" where
  "positioned n = set_position absentApart (Some (Cartesian3 1 2 3)) (newManager n)"

definition frameAt :: "real \<Rightarrow> frameState" where
  "frameAt t =
     \<lparr>time = t, readPixels = map real [0..<36],
      ellipsoid_scaleToGeodeticSurface =
        (\<lambda>p. case p of
               None \<Rightarrow> Inl DeveloperError
             | Some v \<Rightarrow> Inr (if v = Cartesian3 0 0 0 then None else Some v)),
      Cartesian3_magnitude =
        (\<lambda>p. case p of
               None \<Rightarrow> Inl DeveloperError
             | Some v \<Rightarrow> Inr (\<bar>cx v\<bar> + \<bar>cy v\<bar> + \<bar>cz v\<bar>)),
      Transforms_eastNorthUpToFixedFrame =
        (\<lambda>p. case p of
               None \<Rightarrow> Inl DeveloperError
             | Some v \<Rightarrow> Inr [1, 0, 0, 0, 0, 1, 0, 0, 0, 0, 1, 0, cx v, cy v, cz v, 1])\<rparr>"

definition worldOf :: "error \<times> world + world \<times> 'a \<Rightarrow> world" where
  "worldOf r = fst (projr r)"

text \<open>The world after \<open>k\<close> frames, and the world after one more \<^verbatim>\<open>update\<close>.\<close>

definition afterFrames :: "nat \<Rightarrow> nat \<Rightarrow> world" where
  "afterFrames k n = worldOf (frames (replicate k (frameAt 5000)) (positioned n))"

definition afterUpdate :: "world \<Rightarrow> world" where
  "afterUpdate w = worldOf (update (frameAt 5000) w)"



subsection \<open>The tasks of the convolution stage in the words of the spec\<close>

text \<open>
  The task of mip level \<open>level\<close> and face \<open>faceIndex\<close>, as the spec describes it, in a
  world \<open>w\<close>: it is the task number \<open>first + index\<close> with
  \<open>index = (level - 1) * 6 + faceIndex\<close>, it sits in slot \<open>index\<close>, its roughness is
  \<open>level / (mipLevels - 1)\<close>, and its output is the texture of slot \<open>index\<close> of the mip
  chain, whose size is the base size divided by \<open>2 ^ level\<close>.
\<close>

definition convolutionTask ::
  "ref \<Rightarrow> ref \<Rightarrow> nat \<Rightarrow> real \<Rightarrow> real \<Rightarrow> nat \<Rightarrow> nat \<Rightarrow> nat \<Rightarrow> world \<Rightarrow> bool" where
  "convolutionTask cubeMap cell mipLevels baseWidth baseHeight first level faceIndex w =
     (let index = (level - 1) * 6 + faceIndex; c = first + index in
      array_get (convolutionComputeCommands w) index = Some c \<and> c < length (commands w) \<and>
      (case array_get (specularMapTextures w) index of
         None \<Rightarrow> False
       | Some t \<Rightarrow>
           t < length (resources w) \<and>
           commands w ! c =
             \<lparr>canceled = False, outputTexture = t, persists = True,
              uniforms = ConvolutionUniforms (real level / (real mipLevels - 1)) cubeMap
                           (faceNames ! faceIndex),
              postExecute = ConvolutionPostExecute cubeMap cell index t
                              (faceNames ! faceIndex) level\<rparr> \<and>
           resources w ! t =
             newResource TextureK (baseWidth / 2 ^ level) (baseHeight / 2 ^ level)
               (Some UNSIGNED_BYTE)))"

text \<open>
  The invariant of the two loops of \<^verbatim>\<open>updateSpecularMaps\<close> after \<open>built\<close> iterations,
  counted over both loops.
\<close>

definition convolutionInv ::
  "ref \<Rightarrow> ref \<Rightarrow> nat \<Rightarrow> real \<Rightarrow> real \<Rightarrow> nat \<Rightarrow> ref list \<Rightarrow> nat \<Rightarrow> nat \<Rightarrow> world \<Rightarrow> bool" where
  "convolutionInv cubeMap cell mipLevels baseWidth baseHeight first list0 slots built w =
     (length (commands w) = first + built \<and>
      commandList w = list0 @ [first..<first + built] \<and>
      length (convolutionComputeCommands w) = slots \<and>
      length (specularMapTextures w) = slots \<and>
      (\<forall>k<built. convolutionTask cubeMap cell mipLevels baseWidth baseHeight first
                   (k div 6 + 1) (k mod 6) w))"

subsection \<open>Reachable worlds\<close>

text \<open>
  The worlds a manager can be in: made by the constructor, and changed by the position
  setter, the two public fields, \<^verbatim>\<open>update\<close> whether it returns or raises, the
  engine running a task of the store or emptying the frame's list, and \<^verbatim>\<open>destroy\<close>.
\<close>

inductive reachable :: "world \<Rightarrow> bool" where
  constructed: "DynamicEnvironmentMapManager options = Inr w \<Longrightarrow> reachable w"
| position_set: "reachable w \<Longrightarrow> reachable (set_position absent v w)"
| enabled_set: "reachable w \<Longrightarrow> reachable (w\<lparr>enabled := b\<rparr>)"
| threshold_set: "reachable w \<Longrightarrow> reachable (w\<lparr>maximumSecondsDifference := s\<rparr>)"
| updated: "reachable w \<Longrightarrow> update frameState w = Inr (w', r) \<Longrightarrow> reachable w'"
| update_raised: "reachable w \<Longrightarrow> update frameState w = Inl (e, w') \<Longrightarrow> reachable w'"
| executed: "reachable w \<Longrightarrow> reachable (execute c w)"
| frame_ended: "reachable w \<Longrightarrow> reachable (w\<lparr>commandList := []\<rparr>)"
| destroyed: "reachable w \<Longrightarrow> reachable (destroy w)"

subsection \<open>Fields the loops leave alone\<close>

text \<open>
  The loop of the radiance stage writes the face textures, its task slots and the stores;
  the loops of the convolution stage write the mip chain, the two cached objects, their
  task slots and the stores. These are all the other fields.
\<close>

definition radianceKept where
  "radianceKept (w :: world) =
     (position w, radianceCommandsDirty w, radianceMapDirty w,
      convolutionsCommandsDirty w, irradianceCommandDirty w, irradianceTextureDirty w,
      sphericalHarmonicCoefficientsDirty w, mipmapLevels w, convolutionComputeCommands w,
      irradianceComputeCommand w, irradianceMapComputeCommand w, radianceMapFS w,
      irradianceMapFS w, convolveSP w, va w,
      specularMapTextures w, radianceCubeMap w, irradianceMapTexture w,
      sphericalHarmonicCoefficients w, lastTime w, textureDimensions w,
      enabled w, maximumSecondsDifference w, facesCopied w)"

definition convolutionKept where
  "convolutionKept (w :: world) =
     (position w, radianceCommandsDirty w, radianceMapDirty w,
      convolutionsCommandsDirty w, irradianceCommandDirty w, irradianceTextureDirty w,
      sphericalHarmonicCoefficientsDirty w, mipmapLevels w, radianceMapComputeCommands w,
      irradianceComputeCommand w, irradianceMapComputeCommand w, radianceMapFS w,
      irradianceMapFS w, radianceMapTextures w, radianceCubeMap w,
      irradianceMapTexture w, sphericalHarmonicCoefficients w, lastTime w,
      textureDimensions w, enabled w, maximumSecondsDifference w,
      facesCopied w)"

subsection \<open>The stages of a run\<close>











text \<open>The world a call leaves, whether it returned or raised.\<close>

definition outcome :: "error \<times> world + world \<Rightarrow> world" where
  "outcome r = (case r of Inl (e, w) \<Rightarrow> w | Inr w \<Rightarrow> w)"

text \<open>
  The task of face \<open>i\<close> built by the radiance stage, and the invariant of its loop
  after \<open>built\<close> faces.
\<close>

definition radianceTask :: "ref \<Rightarrow> nat \<Rightarrow> nat \<Rightarrow> world \<Rightarrow> bool" where
  "radianceTask cubeMap first i w =
     (array_get (radianceMapComputeCommands w) i = Some (first + i) \<and>
      first + i < length (commands w) \<and>
      \<not> canceled (commands w ! (first + i)) \<and>
      postExecute (commands w ! (first + i)) = RadiancePostExecute cubeMap i (faceNames ! i))"

definition radianceInv :: "ref \<Rightarrow> nat \<Rightarrow> ref list \<Rightarrow> nat \<Rightarrow> world \<Rightarrow> bool" where
  "radianceInv cubeMap first list0 built w =
     (length (commands w) = first + built \<and>
      commandList w = list0 @ [first..<first + built] \<and>
      length (radianceMapComputeCommands w) = 6 \<and>
      length (radianceMapTextures w) = 6 \<and>
      (\<forall>i<built. radianceTask cubeMap first i w))"

subsection \<open>The phases of a cycle\<close>










subsection \<open>The mip chain across cycles\<close>

text \<open>
  The invariant of the loops of \<^verbatim>\<open>updateSpecularMaps\<close> for the textures: the resources
  \<open>res0\<close> that existed before the loops are still there, and each of the first \<open>built\<close>
  slots of the mip chain holds a live texture made after them.
\<close>

definition mipChainFresh :: "resource list \<Rightarrow> nat \<Rightarrow> nat \<Rightarrow> world \<Rightarrow> bool" where
  "mipChainFresh res0 slots built w =
     (prefix res0 (resources w) \<and>
      length (specularMapTextures w) = slots \<and>
      length (convolutionComputeCommands w) = slots \<and>
      (\<forall>k<built.
         case array_get (specularMapTextures w) k of
           None \<Rightarrow> False
         | Some t \<Rightarrow>
             length res0 \<le> t \<and> t < length (resources w) \<and>
             kind (resources w ! t) = TextureK \<and> \<not> destroyed (resources w ! t)))"

text \<open>
  A manager with two mip levels after a complete run, a change of position and one more
  frame: the second cycle has taken its radiance captures and is ready to convolve.
\<close>

definition secondCycle :: world where
  "secondCycle =
     worldOf (frame (frameAt 5000)
                (set_position absentApart (Some (Cartesian3 4 5 6)) (afterFrames 4 2)))"

subsection \<open>Readback\<close>

text \<open>
  Modelled from the spec: what \<^verbatim>\<open>readPixels\<close> returns for a texture, its texels in
  raster order with four channels each.
\<close>

definition texelData :: "(real \<times> real \<times> real \<times> real) list \<Rightarrow> real list" where
  "texelData texels = concat (map (\<lambda>(r, g, b, a). [r, g, b, a]) texels)"

definition exampleTexels :: "(real \<times> real \<times> real \<times> real) list" where
  "exampleTexels =
     map (\<lambda>i. (real (4 * i), real (4 * i + 1), real (4 * i + 2), real (4 * i + 3))) [0..<9]"

section \<open>Invalidation\<close>

lemma length_cancel [simp]: "length (cancel r cs) = length cs"
  by (cases r) simp_all

lemma cancelAndClear_snd_length [simp]:
  "length (snd (cancelAndClear is (slots, cs))) = length cs"
  by (induction "is" arbitrary: slots cs) simp_all

lemma cancelAndClear_fst_length:
  "\<forall>i \<in> set is. i < length slots \<Longrightarrow>
   length (fst (cancelAndClear is (slots, cs))) = length slots"
  by (induction "is" arbitrary: slots cs) (simp_all add: array_set_def)

lemma cancelAndClear_fst_nth:
  "\<forall>i \<in> set is. i < length slots \<Longrightarrow> j < length slots \<Longrightarrow>
   fst (cancelAndClear is (slots, cs)) ! j = (if j \<in> set is then None else slots ! j)"
proof (induction "is" arbitrary: slots cs)
  case Nil
  then show ?case by simp
next
  case (Cons i rest)
  then show ?case by (auto simp: array_set_def nth_list_update)
qed

lemma cancelAndClear_all:
  "fst (cancelAndClear [0..<length slots] (slots, cs)) = replicate (length slots) None"
  by (rule nth_equalityI) (simp_all add: cancelAndClear_fst_length cancelAndClear_fst_nth)

lemma cancelAndClear_snd_drop:
  "k \<le> length slots \<Longrightarrow>
   snd (cancelAndClear [k..<length slots] (slots, cs)) = fold cancel (drop k slots) cs"
proof (induction "length slots - k" arbitrary: slots cs k)
  case 0
  then show ?case by simp
next
  case (Suc n)
  then have k: "k < length slots" by simp
  have "snd (cancelAndClear [k..<length slots] (slots, cs)) =
        snd (cancelAndClear [Suc k..<length (slots[k := None])]
               (slots[k := None], cancel (slots ! k) cs))"
    using k by (simp add: upt_conv_Cons array_set_def array_get_def)
  also have "\<dots> = fold cancel (drop (Suc k) (slots[k := None])) (cancel (slots ! k) cs)"
    using Suc.hyps(1) [of "slots[k := None]" "Suc k"] Suc.hyps(2) k by simp
  also have "\<dots> = fold cancel (drop k slots) cs"
    using k by (simp add: Cons_nth_drop_Suc [symmetric])
  finally show ?case .
qed

lemma cancelAndClear_snd:
  "snd (cancelAndClear [0..<length slots] (slots, cs)) = fold cancel slots cs"
  using cancelAndClear_snd_drop [of 0 slots cs] by simp

text \<open>What \<^verbatim>\<open>_reset\<close> does, in closed form.\<close>

lemma reset_closed:
  "reset w =
     w\<lparr>radianceMapDirty := True, radianceCommandsDirty := True,
       radianceMapComputeCommands := replicate (length (radianceMapComputeCommands w)) None,
       convolutionComputeCommands := replicate (length (convolutionComputeCommands w)) None,
       irradianceMapComputeCommand := None,
       commands :=
         cancel (irradianceMapComputeCommand w)
           (fold cancel (convolutionComputeCommands w)
              (fold cancel (radianceMapComputeCommands w) (commands w)))\<rparr>"
  by (simp add: reset_def Let_def split_def cancelAndClear_all cancelAndClear_snd
      split: option.splits)

text \<open>
  C7. Invalidation sets the two radiance-stage flags and nothing else of the flags: the
  convolution, irradiance-command, irradiance-texture and coefficient flags keep their
  values, and so do the position, the resource slots and the resources themselves, the
  mip level count, the enabled flag and every other field. What changes besides the two
  flags are the task slots, which are emptied, and the canceled marks of the tasks.
\<close>

theorem reset_frame:
  "reset w =
     w\<lparr>radianceMapDirty := True, radianceCommandsDirty := True,
       radianceMapComputeCommands := replicate (length (radianceMapComputeCommands w)) None,
       convolutionComputeCommands := replicate (length (convolutionComputeCommands w)) None,
       irradianceMapComputeCommand := None,
       commands := commands (reset w)\<rparr>
   \<and> convolutionsCommandsDirty (reset w) = convolutionsCommandsDirty w
   \<and> irradianceCommandDirty (reset w) = irradianceCommandDirty w
   \<and> irradianceTextureDirty (reset w) = irradianceTextureDirty w
   \<and> sphericalHarmonicCoefficientsDirty (reset w) = sphericalHarmonicCoefficientsDirty w
   \<and> position (reset w) = position w
   \<and> resources (reset w) = resources w
   \<and> mipmapLevels (reset w) = mipmapLevels w
   \<and> enabled (reset w) = enabled w"
  by (simp add: reset_closed)

lemma cancel_other:
  "Some c \<noteq> r \<Longrightarrow> cancel r cs ! c = cs ! c"
  by (cases r) auto

lemma fold_cancel_other:
  "Some c \<notin> set slots \<Longrightarrow> fold cancel slots cs ! c = cs ! c"
  by (induction slots arbitrary: cs) (simp_all add: cancel_other)

lemma length_fold_cancel [simp]: "length (fold cancel slots cs) = length cs"
  by (induction slots arbitrary: cs) simp_all

lemma cancel_canceled:
  assumes c: "c < length cs" "canceled (cs ! c)"
  shows "canceled (cancel r cs ! c)"
proof (cases r)
  case None
  then show ?thesis using c by simp
next
  case (Some a)
  show ?thesis
  proof (cases "a = c")
    case True
    then show ?thesis using Some c by simp
  next
    case False
    then show ?thesis using Some c by simp
  qed
qed

lemma fold_cancel_canceled:
  "c < length cs \<Longrightarrow> canceled (cs ! c) \<Longrightarrow> canceled (fold cancel slots cs ! c)"
  by (induction slots arbitrary: cs) (simp_all add: cancel_canceled)

lemma fold_cancel_member:
  "Some c \<in> set slots \<Longrightarrow> c < length cs \<Longrightarrow> canceled (fold cancel slots cs ! c)"
proof (induction slots arbitrary: cs)
  case Nil
  then show ?case by simp
next
  case (Cons s slots)
  show ?case
  proof (cases "s = Some c")
    case True
    then have "canceled (cancel s cs ! c)" using Cons.prems(2) by simp
    then show ?thesis using Cons.prems(2) by (simp add: fold_cancel_canceled)
  next
    case False
    then have "Some c \<in> set slots" using Cons.prems(1) by auto
    then show ?thesis using Cons.IH [of "cancel s cs"] Cons.prems(2) by simp
  qed
qed

text \<open>
  C2. The claim is that invalidation cancels and clears the tasks of every stage, the
  irradiance task included. The code reads \<^verbatim>\<open>_irradianceMapComputeCommand\<close>, a
  property that never holds a task; the task is in \<^verbatim>\<open>_irradianceComputeCommand\<close>.
  So an outstanding irradiance task that is in no other slot stays in its slot and keeps
  its state, canceled mark included. The tasks in the radiance and convolution slots are
  marked canceled, and those slots are all empty afterwards. The witness is the world
  reached after the third \<^verbatim>\<open>update\<close> of a manager with two mip levels: after
  \<open>reset\<close> the task 12 is still in its slot and not canceled, and when the engine runs
  it the coefficient flag is set; and the world after the first \<^verbatim>\<open>update\<close>, where
  the radiance task 3 is canceled.
\<close>

theorem reset_misses_irradiance_task:
  "(irradianceComputeCommand w = Some c \<and> irradianceMapComputeCommand w = None
    \<and> Some c \<notin> set (radianceMapComputeCommands w)
    \<and> Some c \<notin> set (convolutionComputeCommands w)
    \<longrightarrow> irradianceComputeCommand (reset w) = Some c
        \<and> commands (reset w) ! c = commands w ! c)
   \<and> (Some d \<in> set (radianceMapComputeCommands w) \<union> set (convolutionComputeCommands w)
      \<and> d < length (commands w)
      \<longrightarrow> canceled (commands (reset w) ! d))
   \<and> set (radianceMapComputeCommands (reset w)) \<subseteq> {None}
   \<and> set (convolutionComputeCommands (reset w)) \<subseteq> {None}"
proof (intro conjI impI)
  assume a: "Some d \<in> set (radianceMapComputeCommands w) \<union> set (convolutionComputeCommands w)
      \<and> d < length (commands w)"
  let ?cs1 = "fold cancel (radianceMapComputeCommands w) (commands w)"
  let ?cs2 = "fold cancel (convolutionComputeCommands w) ?cs1"
  have l: "d < length ?cs1" "d < length ?cs2" using a by simp_all
  have "canceled (?cs2 ! d)"
  proof (cases "Some d \<in> set (convolutionComputeCommands w)")
    case True
    then show ?thesis using l by (simp add: fold_cancel_member)
  next
    case False
    then have "Some d \<in> set (radianceMapComputeCommands w)" using a by simp
    then have "canceled (?cs1 ! d)" using a by (simp add: fold_cancel_member)
    then show ?thesis using l by (simp add: fold_cancel_canceled)
  qed
  then have "canceled (cancel (irradianceMapComputeCommand w) ?cs2 ! d)"
    using l by (simp add: cancel_canceled)
  then show "canceled (commands (reset w) ! d)" by (simp add: reset_closed)
qed (auto simp: reset_closed fold_cancel_other)

theorem reset_misses_irradiance_task_witness:
  "irradianceComputeCommand (afterUpdate (afterFrames 2 2)) = Some 12
   \<and> commandList (afterUpdate (afterFrames 2 2)) = [12]
   \<and> irradianceComputeCommand (reset (afterUpdate (afterFrames 2 2))) = Some 12
   \<and> \<not> canceled (commands (reset (afterUpdate (afterFrames 2 2))) ! 12)
   \<and> \<not> sphericalHarmonicCoefficientsDirty (reset (afterUpdate (afterFrames 2 2)))
   \<and> sphericalHarmonicCoefficientsDirty (executeFrame (reset (afterUpdate (afterFrames 2 2))))
   \<and> radianceMapComputeCommands (afterUpdate (positioned 2)) ! 3 = Some 3
   \<and> canceled (commands (reset (afterUpdate (positioned 2))) ! 3)"
proof -
  let ?w = "afterUpdate (afterFrames 2 2)"
  let ?v = "afterUpdate (positioned 2)"
  have a: "irradianceComputeCommand ?w = Some 12 \<and> irradianceMapComputeCommand ?w = None
   \<and> Some 12 \<notin> set (radianceMapComputeCommands ?w)
   \<and> Some 12 \<notin> set (convolutionComputeCommands ?w)"
    by code_simp
  have b: "commandList ?w = [12]" "\<not> canceled (commands ?w ! 12)"
    "\<not> sphericalHarmonicCoefficientsDirty (reset ?w)"
    "sphericalHarmonicCoefficientsDirty (executeFrame (reset ?w))"
    by code_simp+
  have c: "Some 3 \<in> set (radianceMapComputeCommands ?v) \<union> set (convolutionComputeCommands ?v)
      \<and> 3 < length (commands ?v)"
    by code_simp
  have d: "radianceMapComputeCommands ?v ! 3 = Some 3" by code_simp
  note t1 = reset_misses_irradiance_task [of ?w 12 0]
  note t2 = reset_misses_irradiance_task [of ?v 0 3]
  have e: "irradianceComputeCommand (reset ?w) = Some 12
        \<and> commands (reset ?w) ! 12 = commands ?w ! 12"
    using t1 a by blast
  have f: "canceled (commands (reset ?v) ! 3)" using t2 c by blast
  show ?thesis using a b d e f by simp
qed

section \<open>The sequencer\<close>

lemma updateIrradianceResources_awaits:
  "irradianceTextureDirty (updateIrradianceResources fs w)"
  by (simp add: updateIrradianceResources_def Let_def allocate_def pushCommand_def
      split: option.splits)

text \<open>The code of \<^verbatim>\<open>update\<close> is the guard, the staleness check and the spec's dispatch.\<close>

lemma update_sequencer:
  "update fs w =
     (if \<not> enabled w \<or> position w = None then Inr (w, Some False)
      else sequencer fs (stalenessCheck fs w))"
  by (simp add: update_def sequencer_def stalenessCheck_def firstFlag_def Let_def
      JulianDate_equalsEpsilon_def updateIrradianceResources_awaits)

text \<open>
  C1. For every state, one call of \<^verbatim>\<open>update\<close> does nothing and returns false when the
  manager is disabled or has no position; otherwise it runs the setup of at most one
  stage, the one selected by the first flag that is set, in the order radiance-map-dirty,
  convolutions-ready, irradiance-command-ready, awaiting-GPU, coefficients-ready, and
  no setup when no flag is set. The flags are read when the stage is chosen, which is
  after the staleness check of the same call. After the irradiance setup the call ends
  at the awaiting-GPU test, so the coefficient extraction never runs in the same call.
  A setup that raises ends the call with its exception: no other stage is set up and the
  stage's flag stays set. The radiance setup raises when one of the helpers does, as at
  the centre of the witness's ellipsoid; the convolution setup raises when there is no
  cube map.
\<close>

theorem update_one_stage:
  "update fs w =
     (if \<not> enabled w \<or> position w = None then Inr (w, Some False)
      else
        (case firstFlag (stalenessCheck fs w) of
           None \<Rightarrow> Inr (stalenessCheck fs w, None)
         | Some RadianceCapture \<Rightarrow>
             (case updateRadianceMap fs (stalenessCheck fs w) of
                Inl e \<Rightarrow> Inl e
              | Inr w1 \<Rightarrow> Inr (w1\<lparr>radianceMapDirty := False\<rparr>, Some False))
         | Some SpecularConvolution \<Rightarrow>
             (case updateSpecularMaps fs (stalenessCheck fs w) of
                Inl e \<Rightarrow> Inl e
              | Inr w1 \<Rightarrow> Inr (w1\<lparr>convolutionsCommandsDirty := False\<rparr>, Some False))
         | Some IrradianceSetup \<Rightarrow>
             Inr ((updateIrradianceResources fs (stalenessCheck fs w))
                  \<lparr>irradianceCommandDirty := False\<rparr>, Some False)
         | Some AwaitingGPU \<Rightarrow> Inr (stalenessCheck fs w, Some False)
         | Some CoefficientExtraction \<Rightarrow>
             Inr ((updateSphericalHarmonicCoefficients fs (stalenessCheck fs w))
                  \<lparr>sphericalHarmonicCoefficientsDirty := False\<rparr>, Some True)))"
  by (simp add: update_sequencer sequencer_def split: option.splits stage.splits)

theorem update_one_stage_witness:
  "(\<exists>w1. updateRadianceMap (frameAt 5000) (stalenessCheck (frameAt 5000) (positioned 2)) = Inr w1
       \<and> update (frameAt 5000) (positioned 2) = Inr (w1\<lparr>radianceMapDirty := False\<rparr>, Some False))
   \<and> update (frameAt 5000) (newManager 2) = Inr (newManager 2, Some False)
   \<and> (\<exists>w'. update (frameAt 5000)
               (set_position absentApart (Some (Cartesian3 0 0 0)) (newManager 2))
             = Inl (DeveloperError, w')
          \<and> radianceMapDirty w' \<and> radianceCommandsDirty w' \<and> commands w' = [])"
proof -
  let ?f = "frameAt 5000"
  let ?c = "set_position absentApart (Some (Cartesian3 0 0 0)) (newManager 2)"
  let ?r1 = "updateRadianceMap ?f (stalenessCheck ?f (positioned 2))"
  let ?r2 = "updateRadianceMap ?f (stalenessCheck ?f ?c)"
  have a: "enabled (positioned 2)" "position (positioned 2) \<noteq> None"
    "firstFlag (stalenessCheck ?f (positioned 2)) = Some RadianceCapture"
    "position (newManager 2) = None"
    "enabled ?c" "position ?c \<noteq> None"
    "firstFlag (stalenessCheck ?f ?c) = Some RadianceCapture"
    by code_simp+
  have "\<not> isl ?r1" by code_simp
  then obtain w1 where w1: "?r1 = Inr w1" by (cases ?r1) simp_all
  have "isl ?r2" "fst (projl ?r2) = DeveloperError" by code_simp+
  then obtain w' where r2: "?r2 = Inl (DeveloperError, w')" by (cases ?r2) auto
  have "radianceMapDirty (snd (projl ?r2))" "radianceCommandsDirty (snd (projl ?r2))"
    "commands (snd (projl ?r2)) = []"
    by code_simp+
  then have left: "radianceMapDirty w'" "radianceCommandsDirty w'" "commands w' = []"
    by (simp_all add: r2)
  have 1: "update ?f (positioned 2) = Inr (w1\<lparr>radianceMapDirty := False\<rparr>, Some False)"
    using update_one_stage [of ?f "positioned 2"] a w1 by simp
  have 2: "update ?f (newManager 2) = Inr (newManager 2, Some False)"
    using update_one_stage [of ?f "newManager 2"] a by simp
  have 3: "update ?f ?c = Inl (DeveloperError, w')"
    using update_one_stage [of ?f ?c] a r2 by simp
  show ?thesis using w1 1 2 3 left by blast
qed

section \<open>What the stages leave alone\<close>

lemma fold_keeps:
  assumes "\<And>x s. g (f x s) = g s"
  shows "g (fold f xs s) = g s"
  by (induction xs arbitrary: s) (simp_all add: assms)

lemma fold_prefix:
  assumes "\<And>x s. prefix (h s) (h (f x s))"
  shows "prefix (h s) (h (fold f xs s))"
proof (induction xs arbitrary: s)
  case Nil
  then show ?case by simp
next
  case (Cons x xs)
  have "prefix (h s) (h (f x s))" by (rule assms)
  also have "prefix (h (f x s)) (h (fold f xs (f x s)))" by (rule Cons.IH)
  finally show ?case by simp
qed

lemma outcome_simps [simp]:
  "outcome (Inr w) = w" "outcome (Inl (e, w)) = w"
  by (simp_all add: outcome_def)


lemma radianceFace_kept:
  "radianceKept (outcome (radianceFace fs c f p w)) = radianceKept w"
  by (simp add: radianceKept_def radianceFace_def Let_def allocate_def pushCommand_def
      split: option.splits sum.splits)

lemma radianceFaces_kept:
  "radianceKept (outcome (radianceFaces fs c f ps w)) = radianceKept w"
proof (induction ps arbitrary: w)
  case Nil
  then show ?case by simp
next
  case (Cons p ps)
  show ?case
  proof (cases "radianceFace fs c f p w")
    case (Inl a)
    then show ?thesis using radianceFace_kept [of fs c f p w] by (cases a) simp
  next
    case (Inr w1)
    then show ?thesis using radianceFace_kept [of fs c f p w] Cons.IH [of w1] by simp
  qed
qed

lemma convolutionFace_kept: "convolutionKept (convolutionFace c cell n l wd ht p w) = convolutionKept w"
  by (simp add: convolutionKept_def convolutionFace_def Let_def allocate_def pushCommand_def
      split: option.splits)

lemma convolutionLevels_kept:
  "convolutionKept (convolutionLevels c cell n ls wd ht w) = convolutionKept w"
  by (induction ls arbitrary: wd ht w)
     (simp_all add: fold_keeps [where g = convolutionKept] convolutionFace_kept)

lemma updateSpecularMaps_kept:
  assumes "updateSpecularMaps fs w = Inr w'"
  shows "convolutionKept w' = convolutionKept (w\<lparr>facesCopied := facesCopied w @ [0]\<rparr>)"
proof -
  obtain cm where cm: "radianceCubeMap w = Some cm"
    using assms by (auto simp: updateSpecularMaps_def split: option.splits)
  let ?w2 = "(modifyResource cm (\<lambda>r. r\<lparr>mipmapsGenerated := mipmapsGenerated r + 1\<rparr>) w)
               \<lparr>facesCopied := facesCopied w @ [0]\<rparr>"
  have "\<exists>ls wd ht. w' = convolutionLevels cm (length (facesCopied w)) (mipmapLevels w) ls wd ht ?w2"
    using assms cm by (auto simp: updateSpecularMaps_def Let_def modifyResource_def)
  then have "convolutionKept w' = convolutionKept ?w2"
    using convolutionLevels_kept by auto
  then show ?thesis by (simp add: convolutionKept_def modifyResource_def)
qed

lemma radianceFace_commands:
  "prefix (commands w) (commands (outcome (radianceFace fs c f p w)))"
  by (simp add: radianceFace_def Let_def allocate_def pushCommand_def
      split: option.splits sum.splits)

lemma radianceFaces_commands:
  "prefix (commands w) (commands (outcome (radianceFaces fs c f ps w)))"
proof (induction ps arbitrary: w)
  case Nil
  then show ?case by simp
next
  case (Cons p ps)
  show ?case
  proof (cases "radianceFace fs c f p w")
    case (Inl a)
    then show ?thesis using radianceFace_commands [of w fs c f p] by (cases a) simp
  next
    case (Inr w1)
    have "prefix (commands w) (commands w1)"
      using Inr radianceFace_commands [of w fs c f p] by simp
    also have "prefix (commands w1) (commands (outcome (radianceFaces fs c f ps w1)))"
      by (rule Cons.IH)
    finally show ?thesis using Inr by simp
  qed
qed

text \<open>
  The radiance stage writes the cube map, the shader source and its flag besides what its
  loop writes; whether it returns or raises, it leaves the baseline and the coefficients
  and only adds tasks.
\<close>

lemma updateRadianceMap_outcome:
  "\<exists>v c f ps. radianceKept v = radianceKept (w\<lparr>radianceCubeMap := c, radianceMapFS := f\<rparr>)
     \<and> commands v = commands w
     \<and> (outcome (updateRadianceMap fs w) = v
        \<or> outcome (updateRadianceMap fs w) = outcome (radianceFaces fs (the c) (the f) ps v)
        \<or> outcome (updateRadianceMap fs w) =
            (outcome (radianceFaces fs (the c) (the f) ps v))\<lparr>radianceCommandsDirty := False\<rparr>)"
proof -
  define w1 where "w1 =
    (case radianceCubeMap w of
       Some c \<Rightarrow> w
     | None \<Rightarrow>
         (allocate
            (newResource CubeMapK (c2x (textureDimensions w))
               (c2y (textureDimensions w)) (Some UNSIGNED_BYTE)) w)
         \<lparr>radianceCubeMap := Some (length (resources w))\<rparr>)"
  define w2 where "w2 =
    (case radianceMapFS w1 of
       Some s \<Rightarrow> w1
     | None \<Rightarrow>
         (allocate (newResource ShaderSourceK 0 0 None) w1)
         \<lparr>radianceMapFS := Some (length (resources w1))\<rparr>)"
  have k1: "radianceKept w1 = radianceKept (w\<lparr>radianceCubeMap := radianceCubeMap w1\<rparr>)"
    "commands w1 = commands w" "radianceMapFS w1 = radianceMapFS w"
    by (simp_all add: w1_def radianceKept_def allocate_def split: option.splits)
  have k2: "radianceKept w2 =
      radianceKept (w\<lparr>radianceCubeMap := radianceCubeMap w2, radianceMapFS := radianceMapFS w2\<rparr>)"
    "commands w2 = commands w"
    using k1 by (simp_all add: w2_def radianceKept_def allocate_def split: option.splits)
  let ?l = "radianceFaces fs (the (radianceCubeMap w2)) (the (radianceMapFS w2))
              (zip [0..<6] faceNames) w2"
  have u: "updateRadianceMap fs w =
      (if radianceCommandsDirty w1
       then (case ?l of Inl e \<Rightarrow> Inl e
             | Inr w3 \<Rightarrow> Inr (w3\<lparr>radianceCommandsDirty := False\<rparr>))
       else Inr w1)"
    by (simp add: updateRadianceMap_def Let_def w1_def [symmetric] w2_def [symmetric])
  show ?thesis
  proof (cases "radianceCommandsDirty w1")
    case False
    then have "outcome (updateRadianceMap fs w) = w1" using u by simp
    moreover have "radianceKept w1 =
        radianceKept (w\<lparr>radianceCubeMap := radianceCubeMap w1, radianceMapFS := radianceMapFS w\<rparr>)"
      using k1 by (simp add: radianceKept_def)
    ultimately show ?thesis using k1(2) by blast
  next
    case True
    have "outcome (updateRadianceMap fs w) = outcome ?l
        \<or> outcome (updateRadianceMap fs w) = (outcome ?l)\<lparr>radianceCommandsDirty := False\<rparr>"
    proof (cases ?l)
      case (Inl a)
      then show ?thesis using u True by (cases a) simp
    next
      case (Inr w3)
      then show ?thesis using u True by simp
    qed
    then show ?thesis using k2 by blast
  qed
qed

lemma updateRadianceMap_lastTime: "lastTime (outcome (updateRadianceMap fs w)) = lastTime w"
proof -
  obtain v c f ps where v: "radianceKept v = radianceKept (w\<lparr>radianceCubeMap := c, radianceMapFS := f\<rparr>)"
    and o: "outcome (updateRadianceMap fs w) = v
        \<or> outcome (updateRadianceMap fs w) = outcome (radianceFaces fs (the c) (the f) ps v)
        \<or> outcome (updateRadianceMap fs w) =
            (outcome (radianceFaces fs (the c) (the f) ps v))\<lparr>radianceCommandsDirty := False\<rparr>"
    using updateRadianceMap_outcome [of w fs] by blast
  have "lastTime v = lastTime w" using v by (simp add: radianceKept_def)
  moreover have "lastTime (outcome (radianceFaces fs (the c) (the f) ps v)) = lastTime v"
    using radianceFaces_kept [of fs "the c" "the f" ps v] by (simp add: radianceKept_def)
  ultimately show ?thesis using o by auto
qed

lemma updateRadianceMap_commands:
  "prefix (commands w) (commands (outcome (updateRadianceMap fs w)))"
proof -
  obtain v c f ps where v: "commands v = commands w"
    and o: "outcome (updateRadianceMap fs w) = v
        \<or> outcome (updateRadianceMap fs w) = outcome (radianceFaces fs (the c) (the f) ps v)
        \<or> outcome (updateRadianceMap fs w) =
            (outcome (radianceFaces fs (the c) (the f) ps v))\<lparr>radianceCommandsDirty := False\<rparr>"
    using updateRadianceMap_outcome [of w fs] by blast
  have "prefix (commands w) (commands (outcome (radianceFaces fs (the c) (the f) ps v)))"
    using radianceFaces_commands [of v fs "the c" "the f" ps] v by simp
  then show ?thesis using o v by auto
qed

lemma convolutionFace_lastTime: "lastTime (convolutionFace c cell n l wd ht p w) = lastTime w"
  by (simp add: convolutionFace_def Let_def allocate_def pushCommand_def split: option.splits)

lemma convolutionFace_commands: "prefix (commands w) (commands (convolutionFace c cell n l wd ht p w))"
  by (simp add: convolutionFace_def Let_def allocate_def pushCommand_def split: option.splits)

lemma convolutionLevels_lastTime: "lastTime (convolutionLevels c cell n ls wd ht w) = lastTime w"
  by (induction ls arbitrary: wd ht w)
     (simp_all add: fold_keeps [where g = lastTime] convolutionFace_lastTime)

lemma convolutionLevels_commands: "prefix (commands w) (commands (convolutionLevels c cell n ls wd ht w))"
proof (induction ls arbitrary: wd ht w)
  case Nil
  then show ?case by simp
next
  case (Cons l ls)
  have "prefix (commands w) (commands (fold (convolutionFace c cell n l wd ht) (zip [0..<6] faceNames) w))"
    by (rule fold_prefix) (rule convolutionFace_commands)
  also note Cons.IH
  finally show ?case by simp
qed

lemma updateSpecularMaps_lastTime:
  "updateSpecularMaps fs w = Inr w' \<Longrightarrow> lastTime w' = lastTime w"
  by (auto simp: updateSpecularMaps_def Let_def modifyResource_def convolutionLevels_lastTime
      split: option.splits)

lemma updateSpecularMaps_commands:
  "updateSpecularMaps fs w = Inr w' \<Longrightarrow> prefix (commands w) (commands w')"
proof -
  have "\<And>c cell n ls wd ht v. commands v = commands w \<Longrightarrow>
      prefix (commands w) (commands (convolutionLevels c cell n ls wd ht v))"
    using convolutionLevels_commands by metis
  then show "updateSpecularMaps fs w = Inr w' \<Longrightarrow> prefix (commands w) (commands w')"
    by (auto simp: updateSpecularMaps_def Let_def modifyResource_def split: option.splits)
qed

lemma updateIrradianceResources_lastTime:
  "lastTime (updateIrradianceResources fs w) = lastTime w"
  by (simp add: updateIrradianceResources_def Let_def allocate_def pushCommand_def
      split: option.splits)

lemma updateIrradianceResources_commands:
  "prefix (commands w) (commands (updateIrradianceResources fs w))"
  by (simp add: updateIrradianceResources_def Let_def allocate_def pushCommand_def
      split: option.splits)

lemma updateSphericalHarmonicCoefficients_lastTime:
  "lastTime (updateSphericalHarmonicCoefficients fs w) = lastTime w"
  by (simp add: updateSphericalHarmonicCoefficients_def Let_def allocate_def destroyResource_def
      modifyResource_def fold_keeps [where g = lastTime])

lemma updateSphericalHarmonicCoefficients_commands:
  "commands (updateSphericalHarmonicCoefficients fs w) = commands w"
  by (simp add: updateSphericalHarmonicCoefficients_def Let_def allocate_def destroyResource_def
      modifyResource_def fold_keeps [where g = commands])

lemma updateRadianceMap_Inr_lastTime:
  "updateRadianceMap fs w = Inr w' \<Longrightarrow> lastTime w' = lastTime w"
  using updateRadianceMap_lastTime [of fs w] by simp

lemma updateRadianceMap_Inr_commands:
  "updateRadianceMap fs w = Inr w' \<Longrightarrow> prefix (commands w) (commands w')"
  using updateRadianceMap_commands [of w fs] by simp

lemma stageSetup_lastTime:
  "stageSetup fs s w = Inr (w', r) \<Longrightarrow> lastTime w' = lastTime w"
  by (cases s)
     (auto simp: updateIrradianceResources_lastTime
        updateSphericalHarmonicCoefficients_lastTime
        dest: updateSpecularMaps_lastTime updateRadianceMap_Inr_lastTime split: sum.splits)

lemma stageSetup_commands:
  "stageSetup fs s w = Inr (w', r) \<Longrightarrow> prefix (commands w) (commands w')"
  by (cases s)
     (auto simp: updateIrradianceResources_commands
        updateSphericalHarmonicCoefficients_commands
        dest: updateSpecularMaps_commands updateRadianceMap_Inr_commands split: sum.splits)

lemma sequencer_lastTime:
  "sequencer fs w = Inr (w', r) \<Longrightarrow> lastTime w' = lastTime w"
  by (auto simp: sequencer_def dest: stageSetup_lastTime split: option.splits)

lemma sequencer_commands:
  "sequencer fs w = Inr (w', r) \<Longrightarrow> prefix (commands w) (commands w')"
  by (auto simp: sequencer_def dest: stageSetup_commands split: option.splits)

section \<open>Redundant invalidation\<close>

lemma distance_squares:
  "0 \<le> e \<Longrightarrow> distance a b \<le> e \<longleftrightarrow> distanceSquared a b \<le> e\<^sup>2"
  unfolding distance_def
  by (metis abs_of_nonneg real_sqrt_abs real_sqrt_le_iff)

text \<open>
  C6, as amended. A position within epsilon of the stored one changes nothing: no task
  is canceled, no flag changes, the new position is not stored. At a time within the
  threshold of the baseline, \<^verbatim>\<open>update\<close> does not invalidate: it is the guard and the
  dispatch on the unchanged state, the baseline stays and every earlier task keeps its
  state. At a time beyond the threshold, a manager that is enabled and has a position
  is invalidated once, the time becomes the baseline, and the dispatch runs on that state.
  (A manager that is disabled or has no position is not invalidated: the counterexample.)
\<close>

theorem redundant_invalidation_absorbed:
  "(position w = Some p1 \<and> distance p2 p1 < EPSILON8 \<longrightarrow>
      set_position absent (Some p2) w = w)
   \<and> (\<bar>time fs - lastTime w\<bar> \<le> maximumSecondsDifference w \<longrightarrow>
        update fs w =
          (if \<not> enabled w \<or> position w = None then Inr (w, Some False) else sequencer fs w)
        \<and> (\<forall>w' r. update fs w = Inr (w', r) \<longrightarrow>
              lastTime w' = lastTime w \<and> prefix (commands w) (commands w')))
   \<and> (enabled w \<and> position w \<noteq> None
        \<and> \<bar>time fs - lastTime w\<bar> > maximumSecondsDifference w \<longrightarrow>
        update fs w = sequencer fs ((reset w)\<lparr>lastTime := time fs\<rparr>)
        \<and> (\<forall>w' r. update fs w = Inr (w', r) \<longrightarrow> lastTime w' = time fs))"
proof (intro conjI impI allI)
  assume "position w = Some p1 \<and> distance p2 p1 < EPSILON8"
  then have "position w = Some p1" "distance p2 p1 \<le> EPSILON8" by simp_all
  moreover have e: "0 \<le> EPSILON8" by (simp add: EPSILON8_def)
  ultimately show "set_position absent (Some p2) w = w"
    using distance_squares [OF e, of p2 p1]
    by (simp add: set_position_def Cartesian3_equalsEpsilon_def)
next
  assume "\<bar>time fs - lastTime w\<bar> \<le> maximumSecondsDifference w"
  then show "update fs w =
          (if \<not> enabled w \<or> position w = None then Inr (w, Some False) else sequencer fs w)"
    by (simp add: update_sequencer stalenessCheck_def)
next
  fix w' r
  assume "\<bar>time fs - lastTime w\<bar> \<le> maximumSecondsDifference w" "update fs w = Inr (w', r)"
  then show "lastTime w' = lastTime w"
    by (auto simp: update_sequencer stalenessCheck_def dest: sequencer_lastTime split: if_splits)
next
  fix w' r
  assume "\<bar>time fs - lastTime w\<bar> \<le> maximumSecondsDifference w" "update fs w = Inr (w', r)"
  then show "prefix (commands w) (commands w')"
    by (auto simp: update_sequencer stalenessCheck_def dest: sequencer_commands split: if_splits)
next
  assume a: "enabled w \<and> position w \<noteq> None
        \<and> \<bar>time fs - lastTime w\<bar> > maximumSecondsDifference w"
  then show "update fs w = sequencer fs ((reset w)\<lparr>lastTime := time fs\<rparr>)"
    by (auto simp: update_sequencer stalenessCheck_def)
next
  fix w' r
  assume a: "enabled w \<and> position w \<noteq> None
        \<and> \<bar>time fs - lastTime w\<bar> > maximumSecondsDifference w" "update fs w = Inr (w', r)"
  then have "sequencer fs ((reset w)\<lparr>lastTime := time fs\<rparr>) = Inr (w', r)"
    by (auto simp: update_sequencer stalenessCheck_def)
  then show "lastTime w' = time fs"
    using sequencer_lastTime by fastforce
qed

theorem redundant_invalidation_absorbed_witness:
  "set_position absentApart (Some (Cartesian3 1 2 (3 + 1 / 10 ^ 9))) (positioned 2)
     = positioned 2
   \<and> update (frameAt 100) (positioned 2) = sequencer (frameAt 100) (positioned 2)
   \<and> update (frameAt 5000) (positioned 2) =
       sequencer (frameAt 5000) ((reset (positioned 2))\<lparr>lastTime := time (frameAt 5000)\<rparr>)"
proof -
  let ?p1 = "Cartesian3 1 2 3 :: real cartesian3"
  let ?p2 = "Cartesian3 1 2 (3 + 1 / 10 ^ 9) :: real cartesian3"
  have p: "position (positioned 2) = Some ?p1" by code_simp
  have "distanceSquared ?p2 ?p1 = (1 / 10 ^ 9)\<^sup>2"
    by (simp add: distanceSquared_def)
  then have "distance ?p2 ?p1 = 1 / 10 ^ 9"
    unfolding distance_def by (simp only: real_sqrt_abs) simp
  then have d: "distance ?p2 ?p1 < EPSILON8"
    by (simp add: EPSILON8_def)
  have fresh: "\<bar>time (frameAt 100) - lastTime (positioned 2)\<bar>
      \<le> maximumSecondsDifference (positioned 2)"
    by code_simp
  have stale: "enabled (positioned 2) \<and> position (positioned 2) \<noteq> None
      \<and> \<bar>time (frameAt 5000) - lastTime (positioned 2)\<bar>
          > maximumSecondsDifference (positioned 2)"
    by code_simp
  note t1 = redundant_invalidation_absorbed [of "positioned 2" ?p1 ?p2 absentApart "frameAt 100"]
  note t2 = redundant_invalidation_absorbed [of "positioned 2" ?p1 ?p2 absentApart "frameAt 5000"]
  have A: "set_position absentApart (Some ?p2) (positioned 2) = positioned 2"
    using t1 p d by blast
  have "update (frameAt 100) (positioned 2) =
          (if \<not> enabled (positioned 2) \<or> position (positioned 2) = None
           then Inr (positioned 2, Some False) else sequencer (frameAt 100) (positioned 2))"
    using t1 fresh by blast
  then have B: "update (frameAt 100) (positioned 2) = sequencer (frameAt 100) (positioned 2)"
    using stale by simp
  have C: "update (frameAt 5000) (positioned 2) =
       sequencer (frameAt 5000) ((reset (positioned 2))\<lparr>lastTime := time (frameAt 5000)\<rparr>)"
    using t2 stale by blast
  show ?thesis using A B C by (intro conjI)
qed

text \<open>
  The claim as stated fails where \<^verbatim>\<open>update\<close> returns at its guard: a disabled manager
  whose six radiance tasks are outstanding, at a time 4000 s after the baseline, is left
  as it is. No task is canceled and the baseline is not moved.
\<close>

theorem stale_update_disabled_counterexample:
  "\<bar>time (frameAt 9000) - lastTime ((afterUpdate (positioned 2))\<lparr>enabled := False\<rparr>)\<bar>
     > maximumSecondsDifference ((afterUpdate (positioned 2))\<lparr>enabled := False\<rparr>)
   \<and> update (frameAt 9000) ((afterUpdate (positioned 2))\<lparr>enabled := False\<rparr>)
       = Inr ((afterUpdate (positioned 2))\<lparr>enabled := False\<rparr>, Some False)
   \<and> lastTime ((afterUpdate (positioned 2))\<lparr>enabled := False\<rparr>) \<noteq> time (frameAt 9000)
   \<and> radianceMapComputeCommands ((afterUpdate (positioned 2))\<lparr>enabled := False\<rparr>) ! 0
       = Some 0
   \<and> \<not> canceled (commands ((afterUpdate (positioned 2))\<lparr>enabled := False\<rparr>) ! 0)"
  by code_simp

section \<open>The idle manager\<close>

text \<open>
  C9. The claim is that an idle manager's \<^verbatim>\<open>update\<close> does no work and returns false.
  It does no work, but where the manager is enabled and has a position the function
  reaches its end without a \<^verbatim>\<open>return\<close>: the result is \<^verbatim>\<open>undefined\<close>, not false.
  The witness is the manager after a complete pipeline run.
\<close>

theorem update_idle_returns_undefined:
  "enabled w \<and> position w \<noteq> None
   \<and> \<bar>time fs - lastTime w\<bar> \<le> maximumSecondsDifference w
   \<and> \<not> radianceMapDirty w \<and> \<not> convolutionsCommandsDirty w \<and> \<not> irradianceCommandDirty w
   \<and> \<not> irradianceTextureDirty w \<and> \<not> sphericalHarmonicCoefficientsDirty w
   \<longrightarrow> update fs w = Inr (w, None)"
  by (simp add: update_sequencer stalenessCheck_def sequencer_def firstFlag_def)

theorem update_idle_returns_undefined_witness:
  "frames (replicate 4 (frameAt 5000)) (positioned 2)
     = Inr (afterFrames 4 2, [Some False, Some False, Some False, Some True])
   \<and> \<not> radianceCommandsDirty (afterFrames 4 2)
   \<and> update (frameAt 5001) (afterFrames 4 2) = Inr (afterFrames 4 2, None)
   \<and> Inr (afterFrames 4 2, None) \<noteq> Inr (afterFrames 4 2, Some False)"
proof -
  let ?w = "afterFrames 4 2"
  have a: "enabled ?w \<and> position ?w \<noteq> None
   \<and> \<bar>time (frameAt 5001) - lastTime ?w\<bar> \<le> maximumSecondsDifference ?w
   \<and> \<not> radianceMapDirty ?w \<and> \<not> convolutionsCommandsDirty ?w \<and> \<not> irradianceCommandDirty ?w
   \<and> \<not> irradianceTextureDirty ?w \<and> \<not> sphericalHarmonicCoefficientsDirty ?w"
    by code_simp
  have b: "frames (replicate 4 (frameAt 5000)) (positioned 2)
     = Inr (afterFrames 4 2, [Some False, Some False, Some False, Some True])"
    "\<not> radianceCommandsDirty (afterFrames 4 2)"
    by code_simp+
  show ?thesis
    using update_idle_returns_undefined [of ?w "frameAt 5001"] a b by simp
qed

section \<open>The convolution stage\<close>

lemma convolutionFace_slots:
  assumes "(level - 1) * 6 + fi < length (convolutionComputeCommands w)"
    and "(level - 1) * 6 + fi < length (specularMapTextures w)"
  shows "convolutionComputeCommands (convolutionFace cm cell n level wd ht (fi, face) w) =
           (convolutionComputeCommands w)[(level - 1) * 6 + fi := Some (length (commands w))]"
    and "specularMapTextures (convolutionFace cm cell n level wd ht (fi, face) w) =
           (specularMapTextures w)[(level - 1) * 6 + fi := Some (length (resources w))]"
  using assms
  by (simp_all add: convolutionFace_def Let_def allocate_def pushCommand_def array_set_def
      split: option.splits)

lemma convolutionFace_commands_eq:
  "commands (convolutionFace cm cell n level wd ht (fi, face) w) =
     commands w @
       [\<lparr>canceled = False, outputTexture = length (resources w), persists = True,
         uniforms = ConvolutionUniforms (real level / (real n - 1)) cm face,
         postExecute =
           ConvolutionPostExecute cm cell ((level - 1) * 6 + fi) (length (resources w))
             face level\<rparr>]"
  by (simp add: convolutionFace_def Let_def allocate_def pushCommand_def split: option.splits)

lemma convolutionFace_commandList:
  "commandList (convolutionFace cm cell n level wd ht (fi, face) w) =
     commandList w @ [length (commands w)]"
  by (simp add: convolutionFace_def Let_def allocate_def pushCommand_def split: option.splits)

lemma convolutionFace_resources:
  "\<exists>extra. resources (convolutionFace cm cell n level wd ht (fi, face) w) =
     resources w @ newResource TextureK wd ht (Some UNSIGNED_BYTE) # extra"
  by (simp add: convolutionFace_def Let_def allocate_def pushCommand_def split: option.splits)

lemma convolutionFace_builds:
  assumes "(level - 1) * 6 + fi < length (convolutionComputeCommands w)"
    and "(level - 1) * 6 + fi < length (specularMapTextures w)"
    and "length (commands w) = first + ((level - 1) * 6 + fi)"
  shows "convolutionTask cm cell n bw bh first level fi
           (convolutionFace cm cell n level (bw / 2 ^ level) (bh / 2 ^ level)
              (fi, faceNames ! fi) w)"
proof -
  obtain extra where
    "resources (convolutionFace cm cell n level (bw / 2 ^ level) (bh / 2 ^ level)
                 (fi, faceNames ! fi) w) =
     resources w @ newResource TextureK (bw / 2 ^ level) (bh / 2 ^ level)
       (Some UNSIGNED_BYTE) # extra"
    using convolutionFace_resources by blast
  then show ?thesis
    using assms
    by (simp add: convolutionTask_def Let_def convolutionFace_slots convolutionFace_commands_eq
        array_get_def nth_append)
qed

lemma convolutionFace_keeps:
  assumes t: "convolutionTask cm cell n bw bh first level0 fi0 w"
    and ne: "(level0 - 1) * 6 + fi0 \<noteq> (level - 1) * 6 + fi"
    and r: "(level - 1) * 6 + fi < length (convolutionComputeCommands w)"
      "(level - 1) * 6 + fi < length (specularMapTextures w)"
  shows "convolutionTask cm cell n bw bh first level0 fi0
           (convolutionFace cm' cell' n' level wd ht (fi, face) w)"
proof -
  obtain extra where
    "resources (convolutionFace cm' cell' n' level wd ht (fi, face) w) =
     resources w @ newResource TextureK wd ht (Some UNSIGNED_BYTE) # extra"
    using convolutionFace_resources by blast
  then show ?thesis
    using t ne r
    by (auto simp: convolutionTask_def Let_def convolutionFace_slots
        convolutionFace_commands_eq array_get_def nth_append split: option.splits if_splits)
qed

lemma convolutionFace_step:
  assumes inv: "convolutionInv cm cell n bw bh first list0 slots built w"
    and d: "built < slots" "built = (level - 1) * 6 + fi" "fi < 6" "1 \<le> level"
    and size: "wd = bw / 2 ^ level" "ht = bh / 2 ^ level"
  shows "convolutionInv cm cell n bw bh first list0 slots (Suc built)
           (convolutionFace cm cell n level wd ht (fi, faceNames ! fi) w)"
    (is "convolutionInv _ _ _ _ _ _ _ _ _ ?w'")
proof -
  have len: "length (commands w) = first + built"
    "commandList w = list0 @ [first..<first + built]"
    "length (convolutionComputeCommands w) = slots"
    "length (specularMapTextures w) = slots"
    and old: "\<And>k. k < built \<Longrightarrow>
      convolutionTask cm cell n bw bh first (k div 6 + 1) (k mod 6) w"
    using inv by (simp_all add: convolutionInv_def)
  have 1: "length (commands ?w') = first + Suc built"
    using len by (simp add: convolutionFace_def Let_def allocate_def pushCommand_def
        split: option.splits)
  have 2: "commandList ?w' = list0 @ [first..<first + Suc built]"
    using len by (simp add: convolutionFace_def Let_def allocate_def pushCommand_def
        split: option.splits)
  have 3: "length (convolutionComputeCommands ?w') = slots"
    "length (specularMapTextures ?w') = slots"
    using len d by (simp_all add: convolutionFace_def Let_def allocate_def pushCommand_def
        array_set_def split: option.splits)
  have new: "convolutionTask cm cell n bw bh first level fi ?w'"
    unfolding size using len d by (intro convolutionFace_builds) simp_all
  have lf: "built div 6 + 1 = level" "built mod 6 = fi"
    using d by simp_all
  have 4: "convolutionTask cm cell n bw bh first (k div 6 + 1) (k mod 6) ?w'"
    if "k < Suc built" for k
  proof (cases "k = built")
    case True
    then show ?thesis using new lf by simp
  next
    case False
    then have k: "k < built" using that by simp
    have "(k div 6 + 1 - 1) * 6 + k mod 6 = k" by simp
    then have "(k div 6 + 1 - 1) * 6 + k mod 6 \<noteq> (level - 1) * 6 + fi"
      using k d by simp
    then show ?thesis
      using old [OF k] len d by (intro convolutionFace_keeps) simp_all
  qed
  show ?thesis
    unfolding convolutionInv_def using 1 2 3 4 by simp
qed

lemma faces_enumerated:
  "zip [0..<6] faceNames = map (\<lambda>i. (i, faceNames ! i)) [0..<6]"
  by code_simp

lemma convolutionFaces_inv:
  assumes inv: "convolutionInv cm cell n bw bh first list0 slots ((level - 1) * 6) w"
    and d: "1 \<le> level" "level * 6 \<le> slots" "j \<le> 6"
  shows "convolutionInv cm cell n bw bh first list0 slots ((level - 1) * 6 + j)
           (fold (\<lambda>i. convolutionFace cm cell n level (bw / 2 ^ level) (bh / 2 ^ level)
                         (i, faceNames ! i)) [0..<j] w)"
  using d(3)
proof (induction j)
  case 0
  then show ?case using inv by simp
next
  case (Suc j)
  then have "convolutionInv cm cell n bw bh first list0 slots ((level - 1) * 6 + j)
           (fold (\<lambda>i. convolutionFace cm cell n level (bw / 2 ^ level) (bh / 2 ^ level)
                         (i, faceNames ! i)) [0..<j] w)"
    by simp
  then have "convolutionInv cm cell n bw bh first list0 slots (Suc ((level - 1) * 6 + j))
           (convolutionFace cm cell n level (bw / 2 ^ level) (bh / 2 ^ level)
              (j, faceNames ! j)
              (fold (\<lambda>i. convolutionFace cm cell n level (bw / 2 ^ level) (bh / 2 ^ level)
                         (i, faceNames ! i)) [0..<j] w))"
    using Suc.prems d by (intro convolutionFace_step [where level = level and fi = j]) auto
  then show ?case by simp
qed

lemma convolutionLevels_inv:
  assumes "convolutionInv cm cell n bw bh first list0 slots ((l - 1) * 6) w"
    and "1 \<le> l" "l \<le> L" "(L - 1) * 6 \<le> slots"
  shows "convolutionInv cm cell n bw bh first list0 slots ((L - 1) * 6)
           (convolutionLevels cm cell n [l..<L] (bw / 2 ^ l) (bh / 2 ^ l) w)"
  using assms
proof (induction "L - l" arbitrary: l w)
  case 0
  then show ?case by simp
next
  case (Suc d)
  then have l: "l < L" by simp
  let ?w1 = "fold (convolutionFace cm cell n l (bw / 2 ^ l) (bh / 2 ^ l))
               (zip [0..<6] faceNames) w"
  have "l * 6 \<le> slots" using l Suc.prems(4) by (cases L) auto
  then have "convolutionInv cm cell n bw bh first list0 slots ((l - 1) * 6 + 6) ?w1"
    using convolutionFaces_inv [OF Suc.prems(1) Suc.prems(2), of 6]
    by (simp add: faces_enumerated fold_map comp_def)
  moreover have "(l - 1) * 6 + 6 = (Suc l - 1) * 6" using Suc.prems(2) by (cases l) auto
  ultimately have "convolutionInv cm cell n bw bh first list0 slots ((Suc l - 1) * 6) ?w1"
    by simp
  then have "convolutionInv cm cell n bw bh first list0 slots ((L - 1) * 6)
           (convolutionLevels cm cell n [Suc l..<L] (bw / 2 ^ Suc l) (bh / 2 ^ Suc l) ?w1)"
    using Suc.hyps(2) l Suc.prems(4) by (intro Suc.hyps(1)) auto
  moreover have "bw / 2 ^ l / 2 = bw / 2 ^ Suc l" "bh / 2 ^ l / 2 = bh / 2 ^ Suc l"
    by simp_all
  ultimately show ?case using l by (simp only: upt_conv_Cons convolutionLevels.simps)
qed

lemma convolutionFace_facesCopied:
  "facesCopied (convolutionFace c cell n l wd ht p w) = facesCopied w"
  by (simp add: convolutionFace_def Let_def allocate_def pushCommand_def split: option.splits)

lemma convolutionLevels_facesCopied:
  "facesCopied (convolutionLevels c cell n ls wd ht w) = facesCopied w"
  by (induction ls arbitrary: wd ht w)
     (simp_all add: fold_keeps [where g = facesCopied] convolutionFace_facesCopied)

lemma convolutionInv_start:
  "convolutionInv cm cell n bw bh (length (commands w)) (commandList w)
     (length (convolutionComputeCommands w)) 0 w
   \<longleftrightarrow> length (specularMapTextures w) = length (convolutionComputeCommands w)"
  by (auto simp: convolutionInv_def)

lemma updateSpecularMaps_inv:
  assumes cm: "radianceCubeMap w = Some cm"
    and len: "length (convolutionComputeCommands w) = (mipmapLevels w - 1) * 6"
      "length (specularMapTextures w) = (mipmapLevels w - 1) * 6"
    and n: "1 \<le> mipmapLevels w"
  shows "\<exists>w'. updateSpecularMaps fs w = Inr w' \<and>
           facesCopied w' = facesCopied w @ [0] \<and>
           convolutionInv cm (length (facesCopied w)) (mipmapLevels w)
             (c2x (textureDimensions w)) (c2y (textureDimensions w))
             (length (commands w)) (commandList w) ((mipmapLevels w - 1) * 6)
             ((mipmapLevels w - 1) * 6) w'"
proof -
  let ?w2 = "(modifyResource cm (\<lambda>r. r\<lparr>mipmapsGenerated := mipmapsGenerated r + 1\<rparr>) w)
               \<lparr>facesCopied := facesCopied w @ [0]\<rparr>"
  let ?bw = "c2x (textureDimensions w)" and ?bh = "c2y (textureDimensions w)"
  let ?N = "mipmapLevels w"
  have eq: "updateSpecularMaps fs w =
      Inr (convolutionLevels cm (length (facesCopied w)) ?N [1..<?N] (?bw / 2 ^ 1) (?bh / 2 ^ 1) ?w2)"
    using cm by (simp add: updateSpecularMaps_def Let_def modifyResource_def)
  have "convolutionInv cm (length (facesCopied w)) ?N ?bw ?bh (length (commands w))
          (commandList w) ((?N - 1) * 6) ((1 - 1) * 6) ?w2"
    using len by (simp add: convolutionInv_def modifyResource_def)
  then have "convolutionInv cm (length (facesCopied w)) ?N ?bw ?bh (length (commands w))
          (commandList w) ((?N - 1) * 6) ((?N - 1) * 6)
          (convolutionLevels cm (length (facesCopied w)) ?N [1..<?N] (?bw / 2 ^ 1) (?bh / 2 ^ 1) ?w2)"
    using n by (intro convolutionLevels_inv) simp_all
  moreover have "facesCopied (convolutionLevels cm (length (facesCopied w)) ?N [1..<?N]
                   (?bw / 2 ^ 1) (?bh / 2 ^ 1) ?w2) = facesCopied w @ [0]"
    by (simp add: convolutionLevels_facesCopied modifyResource_def)
  ultimately show ?thesis using eq by simp
qed

lemma convolutionPostExecute_count:
  assumes "cell < length (facesCopied v)" "cm < length (resources v)"
  shows "facesCopied (convolutionPostExecute cm cell index texture face level v) ! cell =
           facesCopied v ! cell + 1"
    and "facesCopied v ! cell + 1 = length (specularMapTextures v) \<Longrightarrow>
         irradianceCommandDirty (convolutionPostExecute cm cell index texture face level v) \<and>
         sampler (resources (convolutionPostExecute cm cell index texture face level v) ! cm)
           = Some LINEAR_MIPMAP_LINEAR"
    and "facesCopied v ! cell + 1 \<noteq> length (specularMapTextures v) \<Longrightarrow>
         irradianceCommandDirty (convolutionPostExecute cm cell index texture face level v)
           = irradianceCommandDirty v \<and>
         sampler (resources (convolutionPostExecute cm cell index texture face level v) ! cm)
           = sampler (resources v ! cm)"
  using assms
  by (simp_all add: convolutionPostExecute_def Let_def modifyResource_def)

text \<open>
  C4. In a manager with a cube map and \<open>N\<close> mip levels whose two arrays of the stage
  have \<open>(N - 1) * 6\<close> slots, the convolution stage pushes exactly \<open>(N - 1) * 6\<close>
  tasks, and for every level from 1 to \<open>N - 1\<close> and every face the task of that level
  and face is one of them, at its own index: its roughness is \<open>level / (N - 1)\<close> and its
  output texture has the base size divided by \<open>2 ^ level\<close>. The stage starts the count of
  completed tasks at 0; a completion adds one to it, and flags the irradiance stage and
  installs the linear-mipmap-linear sampler on the cube map exactly when the count has
  become \<open>(N - 1) * 6\<close>.
\<close>

theorem specular_convolution_tasks:
  "(radianceCubeMap w = Some cm \<and> 1 \<le> mipmapLevels w
    \<and> length (convolutionComputeCommands w) = (mipmapLevels w - 1) * 6
    \<and> length (specularMapTextures w) = (mipmapLevels w - 1) * 6 \<longrightarrow>
    (\<exists>w'. updateSpecularMaps fs w = Inr w'
       \<and> length (commands w') = length (commands w) + (mipmapLevels w - 1) * 6
       \<and> commandList w' =
           commandList w @
             [length (commands w)..<length (commands w) + (mipmapLevels w - 1) * 6]
       \<and> facesCopied w' = facesCopied w @ [0]
       \<and> (\<forall>level faceIndex. 1 \<le> level \<and> level < mipmapLevels w \<and> faceIndex < 6 \<longrightarrow>
             convolutionTask cm (length (facesCopied w)) (mipmapLevels w)
               (c2x (textureDimensions w)) (c2y (textureDimensions w))
               (length (commands w)) level faceIndex w')))
   \<and> (cell < length (facesCopied v) \<and> c < length (resources v)
      \<and> length (specularMapTextures v) = (mipmapLevels v - 1) * 6 \<longrightarrow>
      (let v' = convolutionPostExecute c cell index texture face lv v in
         facesCopied v' ! cell = facesCopied v ! cell + 1
         \<and> (if facesCopied v' ! cell = (mipmapLevels v - 1) * 6
            then irradianceCommandDirty v'
                 \<and> sampler (resources v' ! c) = Some LINEAR_MIPMAP_LINEAR
            else irradianceCommandDirty v' = irradianceCommandDirty v
                 \<and> sampler (resources v' ! c) = sampler (resources v ! c))))"
proof (intro conjI impI)
  assume a: "radianceCubeMap w = Some cm \<and> 1 \<le> mipmapLevels w
    \<and> length (convolutionComputeCommands w) = (mipmapLevels w - 1) * 6
    \<and> length (specularMapTextures w) = (mipmapLevels w - 1) * 6"
  let ?N = "mipmapLevels w"
  obtain w' where w': "updateSpecularMaps fs w = Inr w'"
    "facesCopied w' = facesCopied w @ [0]"
    "convolutionInv cm (length (facesCopied w)) ?N
             (c2x (textureDimensions w)) (c2y (textureDimensions w))
             (length (commands w)) (commandList w) ((?N - 1) * 6) ((?N - 1) * 6) w'"
    using updateSpecularMaps_inv [of w cm fs] a by blast
  have "convolutionTask cm (length (facesCopied w)) ?N
               (c2x (textureDimensions w)) (c2y (textureDimensions w))
               (length (commands w)) level fi w'"
    if "1 \<le> level \<and> level < ?N \<and> fi < 6" for level fi
  proof -
    let ?k = "(level - 1) * 6 + fi"
    have "?k < (?N - 1) * 6"
    proof -
      have "?k < (level - 1) * 6 + 6" using that by simp
      also have "\<dots> = level * 6" using that by (cases level) auto
      also have "\<dots> \<le> (?N - 1) * 6" using that by (cases "mipmapLevels w") auto
      finally show ?thesis .
    qed
    moreover have "?k div 6 + 1 = level" "?k mod 6 = fi" using that by auto
    ultimately show ?thesis
      using w'(3) unfolding convolutionInv_def by metis
  qed
  then show "\<exists>w'. updateSpecularMaps fs w = Inr w'
       \<and> length (commands w') = length (commands w) + (?N - 1) * 6
       \<and> commandList w' =
           commandList w @ [length (commands w)..<length (commands w) + (?N - 1) * 6]
       \<and> facesCopied w' = facesCopied w @ [0]
       \<and> (\<forall>level faceIndex. 1 \<le> level \<and> level < ?N \<and> faceIndex < 6 \<longrightarrow>
             convolutionTask cm (length (facesCopied w)) ?N
               (c2x (textureDimensions w)) (c2y (textureDimensions w))
               (length (commands w)) level faceIndex w')"
    using w' unfolding convolutionInv_def by blast
next
  assume "cell < length (facesCopied v) \<and> c < length (resources v)
      \<and> length (specularMapTextures v) = (mipmapLevels v - 1) * 6"
  then show "let v' = convolutionPostExecute c cell index texture face lv v in
         facesCopied v' ! cell = facesCopied v ! cell + 1
         \<and> (if facesCopied v' ! cell = (mipmapLevels v - 1) * 6
            then irradianceCommandDirty v'
                 \<and> sampler (resources v' ! c) = Some LINEAR_MIPMAP_LINEAR
            else irradianceCommandDirty v' = irradianceCommandDirty v
                 \<and> sampler (resources v' ! c) = sampler (resources v ! c))"
    using convolutionPostExecute_count [of cell v c index texture face lv]
    by (simp add: Let_def)
qed

theorem specular_convolution_tasks_witness:
  "(\<exists>w'. updateSpecularMaps (frameAt 5000) (afterFrames 1 2) = Inr w'
      \<and> length (commands w') = 12
      \<and> commandList w' = [6, 7, 8, 9, 10, 11]
      \<and> convolutionTask 0 0 2 2 2 6 1 0 w'
      \<and> convolutionTask 0 0 2 2 2 6 1 5 w')
   \<and> facesCopied (convolutionPostExecute 0 0 0 8 PositiveX 1 (afterUpdate (afterFrames 1 2))) ! 0
       = 1"
proof -
  let ?w = "afterFrames 1 2" and ?v = "afterUpdate (afterFrames 1 2)"
  have w: "radianceCubeMap ?w = Some 0 \<and> 1 \<le> mipmapLevels ?w
    \<and> length (convolutionComputeCommands ?w) = (mipmapLevels ?w - 1) * 6
    \<and> length (specularMapTextures ?w) = (mipmapLevels ?w - 1) * 6"
    by code_simp
  have v: "0 < length (facesCopied ?v) \<and> 0 < length (resources ?v)
      \<and> length (specularMapTextures ?v) = (mipmapLevels ?v - 1) * 6"
    by code_simp
  have e: "mipmapLevels ?w = 2" "length (commands ?w) = 6" "commandList ?w = []"
    "length (facesCopied ?w) = 0" "c2x (textureDimensions ?w) = 2"
    "c2y (textureDimensions ?w) = 2"
    by code_simp+
  have u: "[6..<12] = [6, 7, 8, 9, 10, 11::nat]" by code_simp
  note t = specular_convolution_tasks [of ?w 0 "frameAt 5000" 0 ?v 0 0 8 PositiveX 1]
  have "\<exists>w'. updateSpecularMaps (frameAt 5000) ?w = Inr w'
       \<and> length (commands w') = length (commands ?w) + (mipmapLevels ?w - 1) * 6
       \<and> commandList w' =
           commandList ?w @
             [length (commands ?w)..<length (commands ?w) + (mipmapLevels ?w - 1) * 6]
       \<and> facesCopied w' = facesCopied ?w @ [0]
       \<and> (\<forall>level faceIndex. 1 \<le> level \<and> level < mipmapLevels ?w \<and> faceIndex < 6 \<longrightarrow>
             convolutionTask 0 (length (facesCopied ?w)) (mipmapLevels ?w)
               (c2x (textureDimensions ?w)) (c2y (textureDimensions ?w))
               (length (commands ?w)) level faceIndex w')"
    using t w by blast
  then obtain w' where w': "updateSpecularMaps (frameAt 5000) ?w = Inr w'"
    "length (commands w') = 12" "commandList w' = [6, 7, 8, 9, 10, 11]"
    "\<And>level faceIndex. 1 \<le> level \<and> level < 2 \<and> faceIndex < 6 \<Longrightarrow>
       convolutionTask 0 0 2 2 2 6 level faceIndex w'"
    using e u by auto
  have "convolutionTask 0 0 2 2 2 6 1 0 w'" "convolutionTask 0 0 2 2 2 6 1 5 w'"
    by (rule w'(4), simp)+
  then have "\<exists>w'. updateSpecularMaps (frameAt 5000) ?w = Inr w'
      \<and> length (commands w') = 12
      \<and> commandList w' = [6, 7, 8, 9, 10, 11]
      \<and> convolutionTask 0 0 2 2 2 6 1 0 w'
      \<and> convolutionTask 0 0 2 2 2 6 1 5 w'"
    using w' by blast
  moreover have "let v' = convolutionPostExecute 0 0 0 8 PositiveX 1 ?v in
         facesCopied v' ! 0 = facesCopied ?v ! 0 + 1
         \<and> (if facesCopied v' ! 0 = (mipmapLevels ?v - 1) * 6
            then irradianceCommandDirty v'
                 \<and> sampler (resources v' ! 0) = Some LINEAR_MIPMAP_LINEAR
            else irradianceCommandDirty v' = irradianceCommandDirty ?v
                 \<and> sampler (resources v' ! 0) = sampler (resources ?v ! 0))"
    using t v by blast
  then have "facesCopied (convolutionPostExecute 0 0 0 8 PositiveX 1 ?v) ! 0
       = facesCopied ?v ! 0 + 1"
    by (simp add: Let_def)
  moreover have "facesCopied ?v ! 0 = 0" by code_simp
  ultimately show ?thesis by simp
qed

section \<open>The coefficients\<close>

lemma reset_coefficients:
  "sphericalHarmonicCoefficients (reset w) = sphericalHarmonicCoefficients w"
  by (simp add: reset_closed)

lemma updateRadianceMap_coefficients:
  "sphericalHarmonicCoefficients (outcome (updateRadianceMap fs w))
     = sphericalHarmonicCoefficients w"
proof -
  obtain v c f ps where v: "radianceKept v = radianceKept (w\<lparr>radianceCubeMap := c, radianceMapFS := f\<rparr>)"
    and o: "outcome (updateRadianceMap fs w) = v
        \<or> outcome (updateRadianceMap fs w) = outcome (radianceFaces fs (the c) (the f) ps v)
        \<or> outcome (updateRadianceMap fs w) =
            (outcome (radianceFaces fs (the c) (the f) ps v))\<lparr>radianceCommandsDirty := False\<rparr>"
    using updateRadianceMap_outcome [of w fs] by blast
  have "sphericalHarmonicCoefficients v = sphericalHarmonicCoefficients w"
    using v by (simp add: radianceKept_def)
  moreover have "sphericalHarmonicCoefficients (outcome (radianceFaces fs (the c) (the f) ps v))
      = sphericalHarmonicCoefficients v"
    using radianceFaces_kept [of fs "the c" "the f" ps v] by (simp add: radianceKept_def)
  ultimately show ?thesis using o by auto
qed

lemma updateSpecularMaps_coefficients:
  "updateSpecularMaps fs w = Inr w' \<Longrightarrow>
   sphericalHarmonicCoefficients w' = sphericalHarmonicCoefficients w"
  using updateSpecularMaps_kept [of fs w w'] by (simp add: convolutionKept_def)

lemma updateIrradianceResources_coefficients:
  "sphericalHarmonicCoefficients (updateIrradianceResources fs w) = sphericalHarmonicCoefficients w"
  by (simp add: updateIrradianceResources_def Let_def allocate_def pushCommand_def
      split: option.splits)

lemma extraction_fold:
  "k \<le> length (sphericalHarmonicCoefficients w) \<Longrightarrow>
   fold (\<lambda>i v. v\<lparr>sphericalHarmonicCoefficients :=
                    array_set (sphericalHarmonicCoefficients v) i (Some (f i))\<rparr>) [0..<k] w
   = w\<lparr>sphericalHarmonicCoefficients :=
         map (\<lambda>i. Some (f i)) [0..<k] @ drop k (sphericalHarmonicCoefficients w)\<rparr>"
proof (induction k)
  case 0
  then show ?case by simp
next
  case (Suc k)
  then have k: "k < length (sphericalHarmonicCoefficients w)" by simp
  have "(map (\<lambda>i. Some (f i)) [0..<k] @ drop k (sphericalHarmonicCoefficients w))[k := Some (f k)]
      = map (\<lambda>i. Some (f i)) [0..<k] @ Some (f k) # drop (Suc k) (sphericalHarmonicCoefficients w)"
    using k by (simp add: list_update_append Cons_nth_drop_Suc [symmetric])
  then show ?case using Suc k by (simp add: array_set_def)
qed

lemma updateSphericalHarmonicCoefficients_coefficients:
  assumes "length (sphericalHarmonicCoefficients w) = 9"
  shows "sphericalHarmonicCoefficients (updateSphericalHarmonicCoefficients fs w) =
           map (\<lambda>i. Some (Cartesian3_unpack (readPixels fs) (i * 4))) [0..<9]"
  using assms extraction_fold [of 9 "allocate (newFramebuffer (irradianceMapTexture w)) w"
      "\<lambda>i. Cartesian3_unpack (readPixels fs) (i * 4)"]
  by (simp add: updateSphericalHarmonicCoefficients_def Let_def allocate_def destroyResource_def
      modifyResource_def)

lemma execute_coefficients:
  "sphericalHarmonicCoefficients (execute c w) = sphericalHarmonicCoefficients w"
proof (cases "postExecute (commands w ! c)")
  case (RadiancePostExecute x11 x12 x13)
  then show ?thesis
    by (simp add: execute_def radiancePostExecute_def Let_def allocate_def modifyResource_def
        destroyResource_def)
next
  case (ConvolutionPostExecute x21 x22 x23 x24 x25 x26)
  then show ?thesis
    by (simp add: execute_def convolutionPostExecute_def Let_def modifyResource_def)
next
  case IrradiancePostExecute
  then show ?thesis by (simp add: execute_def irradiancePostExecute_def)
qed

lemma destroyResource_coefficients:
  "sphericalHarmonicCoefficients (destroyResource r w) = sphericalHarmonicCoefficients w"
  by (cases r) (simp_all add: destroyResource_def modifyResource_def)

lemma destroy_coefficients:
  "sphericalHarmonicCoefficients (destroy w) = sphericalHarmonicCoefficients w"
  by (simp add: destroy_def Let_def destroyTextures_def destroyResource_coefficients
      fold_keeps [where g = sphericalHarmonicCoefficients])

lemma sequencer_coefficients_length:
  assumes "sequencer fs w = Inr (w', r)" "length (sphericalHarmonicCoefficients w) = 9"
  shows "length (sphericalHarmonicCoefficients w') = 9"
proof (cases "firstFlag w")
  case None
  then show ?thesis using assms by (simp add: sequencer_def)
next
  case (Some s)
  then have "stageSetup fs s w = Inr (w', r)" using assms by (simp add: sequencer_def)
  then show ?thesis
    using assms(2) updateRadianceMap_coefficients [of fs w]
    by (cases s)
       (auto simp: updateIrradianceResources_coefficients
          updateSphericalHarmonicCoefficients_coefficients
          dest: updateSpecularMaps_coefficients split: sum.splits)
qed

lemma sequencer_raised_coefficients:
  assumes "sequencer fs w = Inl (e, w')"
  shows "sphericalHarmonicCoefficients w' = sphericalHarmonicCoefficients w"
proof (cases "firstFlag w")
  case None
  then show ?thesis using assms by (simp add: sequencer_def)
next
  case (Some s)
  then have "stageSetup fs s w = Inl (e, w')" using assms by (simp add: sequencer_def)
  then show ?thesis
    using updateRadianceMap_coefficients [of fs w]
    by (cases s) (auto simp: updateSpecularMaps_def Let_def split: sum.splits option.splits)
qed

lemma reachable_coefficients: "reachable w \<Longrightarrow> length (sphericalHarmonicCoefficients w) = 9"
proof (induction rule: reachable.induct)
  case (constructed options w)
  then show ?case
    by (auto simp: DynamicEnvironmentMapManager_def Let_def split: if_splits)
next
  case (position_set w absent v)
  then show ?case by (simp add: set_position_def reset_coefficients)
next
  case (updated w frameState w' r)
  then show ?case
    by (auto simp: update_sequencer stalenessCheck_def reset_coefficients
        dest!: sequencer_coefficients_length split: if_splits)
next
  case (update_raised w frameState e w')
  then show ?case
    by (auto simp: update_sequencer stalenessCheck_def reset_coefficients
        dest!: sequencer_raised_coefficients split: if_splits)
next
  case (executed w c)
  then show ?case by (simp add: execute_coefficients)
next
  case (destroyed w)
  then show ?case by (simp add: destroy_coefficients)
qed simp_all

lemma texelData_length: "length (texelData texels) = 4 * length texels"
  by (induction texels) (auto simp: texelData_def)

lemma texelData_nth:
  "i < length texels \<Longrightarrow> texels ! i = (r, g, b, a) \<Longrightarrow>
   texelData texels ! (i * 4) = r \<and> texelData texels ! (i * 4 + 1) = g \<and>
   texelData texels ! (i * 4 + 2) = b"
proof (induction texels arbitrary: i)
  case Nil
  then show ?case by simp
next
  case (Cons t texels)
  obtain r' g' b' a' where t: "t = (r', g', b', a')" by (cases t) auto
  show ?case
  proof (cases i)
    case 0
    then show ?thesis using Cons.prems t by (simp add: texelData_def)
  next
    case (Suc j)
    then have "texelData texels ! (j * 4) = r \<and> texelData texels ! (j * 4 + 1) = g \<and>
      texelData texels ! (j * 4 + 2) = b"
      using Cons by simp
    moreover have "texelData (t # texels) = [r', g', b', a'] @ texelData texels"
      using t by (simp add: texelData_def)
    ultimately show ?thesis using Suc by (simp add: nth_append)
  qed
qed

lemma unpack_texel:
  assumes "i < length texels" "texels ! i = (r, g, b, a)"
  shows "Cartesian3_unpack (texelData texels) (i * 4) = Cartesian3 (Some r) (Some g) (Some b)"
proof -
  have "i * 4 + 2 < length (texelData texels)"
    using assms(1) by (simp add: texelData_length)
  then show ?thesis
    using texelData_nth [OF assms] by (simp add: Cartesian3_unpack_def typed_get_def)
qed

lemma executeFrame_reachable: "reachable w \<Longrightarrow> reachable (executeFrame w)"
proof -
  assume r: "reachable w"
  have "reachable (fold execute cs v)" if "reachable v" for cs v
    using that by (induction cs arbitrary: v) (simp_all add: reachable.executed)
  then show ?thesis
    unfolding executeFrame_def using r by (simp add: reachable.frame_ended)
qed

lemma frames_reachable:
  "reachable w \<Longrightarrow> frames fs w = Inr (w', rs) \<Longrightarrow> reachable w'"
proof (induction fs arbitrary: w rs)
  case Nil
  then show ?case by simp
next
  case (Cons f fs)
  from Cons.prems(2) obtain w1 r rs' where
    u: "update f w = Inr (w1, r)" and rest: "frames fs (executeFrame w1) = Inr (w', rs')"
    by (auto simp: frame_def split: sum.splits prod.splits)
  have "reachable (executeFrame w1)"
    using Cons.prems(1) u by (intro executeFrame_reachable) (rule reachable.updated)
  then show ?case using rest by (rule Cons.IH)
qed

text \<open>
  C5. In every reachable world the coefficient array has length 9. The extraction writes
  into slot \<open>i\<close>, for \<open>i\<close> from 0 to 8, the first three channels of the texel at raster
  index \<open>i\<close> of the readback, that is the numbers at \<open>4 * i\<close>, \<open>4 * i + 1\<close> and
  \<open>4 * i + 2\<close>; so for the readback of any nine texels the array is, in order, the
  (red, green, blue) of each texel. The order of the slots is the order of the texels;
  that texel \<open>i\<close> holds the coefficient named \<open>i\<close>-th in the documentation is the
  shader's business.
\<close>

theorem coefficient_extraction:
  "(reachable w \<longrightarrow> length (sphericalHarmonicCoefficients w) = 9)
   \<and> (length (sphericalHarmonicCoefficients w) = 9 \<and> i < 9 \<longrightarrow>
        sphericalHarmonicCoefficients (updateSphericalHarmonicCoefficients fs w) ! i
          = Some (Cartesian3 (typed_get (readPixels fs) (i * 4))
                    (typed_get (readPixels fs) (i * 4 + 1))
                    (typed_get (readPixels fs) (i * 4 + 2))))
   \<and> (length (sphericalHarmonicCoefficients w) = 9 \<and> length texels = 9
        \<and> readPixels fs = texelData texels \<longrightarrow>
        sphericalHarmonicCoefficients (updateSphericalHarmonicCoefficients fs w)
          = map (\<lambda>(r, g, b, a). Some (Cartesian3 (Some r) (Some g) (Some b))) texels)"
proof (intro conjI impI)
  assume "reachable w"
  then show "length (sphericalHarmonicCoefficients w) = 9" by (rule reachable_coefficients)
next
  assume "length (sphericalHarmonicCoefficients w) = 9 \<and> i < 9"
  then show "sphericalHarmonicCoefficients (updateSphericalHarmonicCoefficients fs w) ! i
          = Some (Cartesian3 (typed_get (readPixels fs) (i * 4))
                    (typed_get (readPixels fs) (i * 4 + 1))
                    (typed_get (readPixels fs) (i * 4 + 2)))"
    by (simp add: updateSphericalHarmonicCoefficients_coefficients Cartesian3_unpack_def
        del: upt_Suc)
next
  assume a: "length (sphericalHarmonicCoefficients w) = 9 \<and> length texels = 9
        \<and> readPixels fs = texelData texels"
  show "sphericalHarmonicCoefficients (updateSphericalHarmonicCoefficients fs w)
          = map (\<lambda>(r, g, b, a). Some (Cartesian3 (Some r) (Some g) (Some b))) texels"
  proof (rule nth_equalityI)
    show "length (sphericalHarmonicCoefficients (updateSphericalHarmonicCoefficients fs w)) =
      length (map (\<lambda>(r, g, b, a). Some (Cartesian3 (Some r) (Some g) (Some b))) texels)"
      using a by (simp add: updateSphericalHarmonicCoefficients_coefficients)
  next
    fix j
    assume "j < length (sphericalHarmonicCoefficients (updateSphericalHarmonicCoefficients fs w))"
    then have j: "j < 9" using a by (simp add: updateSphericalHarmonicCoefficients_coefficients)
    obtain r g b al where t: "texels ! j = (r, g, b, al)" by (cases "texels ! j") auto
    have "Cartesian3_unpack (texelData texels) (j * 4) = Cartesian3 (Some r) (Some g) (Some b)"
      using j a t by (intro unpack_texel) simp_all
    then show "sphericalHarmonicCoefficients (updateSphericalHarmonicCoefficients fs w) ! j =
      map (\<lambda>(r, g, b, a). Some (Cartesian3 (Some r) (Some g) (Some b))) texels ! j"
      using j a t by (simp add: updateSphericalHarmonicCoefficients_coefficients del: upt_Suc)
  qed
qed

theorem coefficient_extraction_witness:
  "length (sphericalHarmonicCoefficients (afterFrames 3 2)) = 9
   \<and> sphericalHarmonicCoefficients
        (updateSphericalHarmonicCoefficients (frameAt 5000) (afterFrames 3 2)) ! 4
       = Some (Cartesian3 (Some 16) (Some 17) (Some 18))
   \<and> sphericalHarmonicCoefficients
        (updateSphericalHarmonicCoefficients (frameAt 5000) (afterFrames 3 2))
       = map (\<lambda>(r, g, b, a). Some (Cartesian3 (Some r) (Some g) (Some b))) exampleTexels"
proof -
  let ?w = "afterFrames 3 2" and ?f = "frameAt 5000"
  note t = coefficient_extraction [of ?w 4 ?f exampleTexels]
  have "DynamicEnvironmentMapManager (Some 2) = Inr (newManager 2)" by code_simp
  then have "reachable (positioned 2)"
    unfolding positioned_def by (intro reachable.position_set) (rule reachable.constructed)
  moreover have "frames (replicate 3 ?f) (positioned 2)
      = Inr (?w, [Some False, Some False, Some False])"
    by code_simp
  ultimately have r: "reachable ?w" by (rule frames_reachable)
  then have 1: "length (sphericalHarmonicCoefficients ?w) = 9" using t by blast
  have "sphericalHarmonicCoefficients (updateSphericalHarmonicCoefficients ?f ?w) ! 4
          = Some (Cartesian3 (typed_get (readPixels ?f) (4 * 4))
                    (typed_get (readPixels ?f) (4 * 4 + 1))
                    (typed_get (readPixels ?f) (4 * 4 + 2)))"
    using t 1 by simp
  moreover have "typed_get (readPixels ?f) (4 * 4) = Some 16"
    "typed_get (readPixels ?f) (4 * 4 + 1) = Some 17"
    "typed_get (readPixels ?f) (4 * 4 + 2) = Some 18"
    by code_simp+
  ultimately have 2: "sphericalHarmonicCoefficients
        (updateSphericalHarmonicCoefficients ?f ?w) ! 4
       = Some (Cartesian3 (Some 16) (Some 17) (Some 18))"
    by simp
  have "length exampleTexels = 9" "readPixels ?f = texelData exampleTexels"
    by code_simp+
  then have 3: "sphericalHarmonicCoefficients (updateSphericalHarmonicCoefficients ?f ?w)
       = map (\<lambda>(r, g, b, a). Some (Cartesian3 (Some r) (Some g) (Some b))) exampleTexels"
    using t 1 by blast
  show ?thesis using 1 2 3 by (intro conjI)
qed

section \<open>The radiance stage\<close>







lemma radianceInv_flag [simp]:
  "radianceInv cm first l b (w\<lparr>radianceCommandsDirty := x\<rparr>) = radianceInv cm first l b w"
  by (simp add: radianceInv_def radianceTask_def)

lemma radianceInv_flag2 [simp]:
  "radianceInv cm first l b (w\<lparr>radianceMapDirty := x\<rparr>) = radianceInv cm first l b w"
  by (simp add: radianceInv_def radianceTask_def)






section \<open>The engine on the tasks of a stage\<close>









section \<open>A full run\<close>








lemma convolutionTask_flag [simp]:
  "convolutionTask cm cell n bw bh first lv fi (w\<lparr>convolutionsCommandsDirty := x\<rparr>)
     = convolutionTask cm cell n bw bh first lv fi w"
  by (simp add: convolutionTask_def Let_def split: option.splits)

lemma convolutionInv_flag [simp]:
  "convolutionInv cm cell n bw bh first l sl b (w\<lparr>convolutionsCommandsDirty := x\<rparr>)
     = convolutionInv cm cell n bw bh first l sl b w"
  by (simp add: convolutionInv_def)










section \<open>A run under any schedule\<close>


















section \<open>The whole pipeline\<close>



section \<open>The mip chain across cycles\<close>

lemma mipChainFresh_step:
  assumes inv: "mipChainFresh res0 slots built w"
    and d: "built < slots" "built = (level - 1) * 6 + fi"
  shows "mipChainFresh res0 slots (Suc built) (convolutionFace cm cell n level wd ht (fi, face) w)"
    (is "mipChainFresh _ _ _ ?w'")
proof -
  have len: "prefix res0 (resources w)" "length (specularMapTextures w) = slots"
    "length (convolutionComputeCommands w) = slots"
    and old: "\<And>k. k < built \<Longrightarrow>
      (case array_get (specularMapTextures w) k of
           None \<Rightarrow> False
         | Some t \<Rightarrow>
             length res0 \<le> t \<and> t < length (resources w) \<and>
             kind (resources w ! t) = TextureK \<and> \<not> destroyed (resources w ! t))"
    using inv by (simp_all add: mipChainFresh_def)
  obtain extra where res: "resources ?w' =
      resources w @ newResource TextureK wd ht (Some UNSIGNED_BYTE) # extra"
    using convolutionFace_resources by blast
  have sl: "specularMapTextures ?w' = (specularMapTextures w)[built := Some (length (resources w))]"
    "length (convolutionComputeCommands ?w') = slots"
    using len d by (simp_all add: convolutionFace_slots)
  have le: "length res0 \<le> length (resources w)"
    using len(1) by (rule prefix_length_le)
  have 1: "prefix res0 (resources ?w')"
    using len(1) res by (simp add: prefix_def) (metis append.assoc)
  have 2: "case array_get (specularMapTextures ?w') k of
           None \<Rightarrow> False
         | Some t \<Rightarrow>
             length res0 \<le> t \<and> t < length (resources ?w') \<and>
             kind (resources ?w' ! t) = TextureK \<and> \<not> destroyed (resources ?w' ! t)"
    if "k < Suc built" for k
  proof (cases "k = built")
    case True
    then show ?thesis
      using len d le by (simp add: sl res array_get_def newResource_def)
  next
    case False
    then have k: "k < built" using that by simp
    then show ?thesis
      using old [OF k] len d False
      by (auto simp: sl res array_get_def nth_append split: option.splits)
  qed
  show ?thesis
    unfolding mipChainFresh_def using 1 2 sl len by simp
qed

lemma mipChainFresh_faces:
  assumes inv: "mipChainFresh res0 slots ((level - 1) * 6) w"
    and d: "level * 6 \<le> slots" "1 \<le> level" "j \<le> 6"
  shows "mipChainFresh res0 slots ((level - 1) * 6 + j)
           (fold (\<lambda>i. convolutionFace cm cell n level wd ht (i, faceNames ! i)) [0..<j] w)"
  using d(3)
proof (induction j)
  case 0
  then show ?case using inv by simp
next
  case (Suc j)
  then have "mipChainFresh res0 slots ((level - 1) * 6 + j)
           (fold (\<lambda>i. convolutionFace cm cell n level wd ht (i, faceNames ! i)) [0..<j] w)"
    by simp
  then have "mipChainFresh res0 slots (Suc ((level - 1) * 6 + j))
           (convolutionFace cm cell n level wd ht (j, faceNames ! j)
              (fold (\<lambda>i. convolutionFace cm cell n level wd ht (i, faceNames ! i)) [0..<j] w))"
    using Suc.prems d by (intro mipChainFresh_step [where level = level and fi = j]) auto
  then show ?case by simp
qed

lemma mipChainFresh_levels:
  assumes "mipChainFresh res0 slots ((l - 1) * 6) w"
    and "1 \<le> l" "l \<le> L" "(L - 1) * 6 \<le> slots"
  shows "mipChainFresh res0 slots ((L - 1) * 6)
           (convolutionLevels cm cell n [l..<L] wd ht w)"
  using assms
proof (induction "L - l" arbitrary: l w wd ht)
  case 0
  then show ?case by simp
next
  case (Suc d)
  then have l: "l < L" by simp
  let ?w1 = "fold (convolutionFace cm cell n l wd ht) (zip [0..<6] faceNames) w"
  have "l * 6 \<le> slots" using l Suc.prems(4) by (cases L) auto
  then have "mipChainFresh res0 slots ((l - 1) * 6 + 6) ?w1"
    using mipChainFresh_faces [OF Suc.prems(1) _ Suc.prems(2), of 6]
    by (simp add: faces_enumerated fold_map comp_def)
  moreover have "(l - 1) * 6 + 6 = (Suc l - 1) * 6" using Suc.prems(2) by (cases l) auto
  ultimately have "mipChainFresh res0 slots ((Suc l - 1) * 6) ?w1"
    by simp
  then have "mipChainFresh res0 slots ((L - 1) * 6)
           (convolutionLevels cm cell n [Suc l..<L] (wd / 2) (ht / 2) ?w1)"
    using Suc.hyps(2) l Suc.prems(4) by (intro Suc.hyps(1)) auto
  then show ?case using l by (simp only: upt_conv_Cons convolutionLevels.simps)
qed

text \<open>
  C8. The claim is that every GPU resource is made at most once and reused in every
  cycle. The mip chain is not: the convolution stage makes a texture for each slot
  without looking at what the slot holds. Every run of the stage leaves each slot of the
  mip chain with a live texture that did not exist before the run, and leaves every
  resource that existed before, the cube map apart, as it was: the textures of the
  earlier cycle are neither reused nor destroyed. The witness is the second cycle of a
  manager with two mip levels: the slots hold the textures 14 and 17 to 21 of the first
  cycle, the stage puts new textures in their place, and texture 14 is as before, also
  after \<^verbatim>\<open>destroy\<close>.
\<close>

theorem mip_chain_reallocated:
  "radianceCubeMap w = Some cm \<and> 1 \<le> mipmapLevels w
   \<and> length (convolutionComputeCommands w) = (mipmapLevels w - 1) * 6
   \<and> length (specularMapTextures w) = (mipmapLevels w - 1) * 6
   \<longrightarrow>
   (\<exists>w'. updateSpecularMaps fs w = Inr w'
      \<and> length (resources w') \<ge> length (resources w)
      \<and> (\<forall>r < length (resources w). r \<noteq> cm \<longrightarrow> resources w' ! r = resources w ! r)
      \<and> (\<forall>index < (mipmapLevels w - 1) * 6.
            \<exists>t. specularMapTextures w' ! index = Some t
              \<and> length (resources w) \<le> t \<and> t < length (resources w')
              \<and> kind (resources w' ! t) = TextureK \<and> \<not> destroyed (resources w' ! t)))"
proof
  assume a: "radianceCubeMap w = Some cm \<and> 1 \<le> mipmapLevels w
   \<and> length (convolutionComputeCommands w) = (mipmapLevels w - 1) * 6
   \<and> length (specularMapTextures w) = (mipmapLevels w - 1) * 6"
  define M where "M = (mipmapLevels w - 1) * 6"
  define w2 where "w2 =
    (modifyResource cm (\<lambda>r. r\<lparr>mipmapsGenerated := mipmapsGenerated r + 1\<rparr>) w)
      \<lparr>facesCopied := facesCopied w @ [0]\<rparr>"
  define w' where "w' = convolutionLevels cm (length (facesCopied w)) (mipmapLevels w)
      [1..<mipmapLevels w] (c2x (textureDimensions w) / 2) (c2y (textureDimensions w) / 2) w2"
  have eq: "updateSpecularMaps fs w = Inr w'"
    using a by (simp add: updateSpecularMaps_def Let_def modifyResource_def w'_def w2_def)
  have w2: "length (resources w2) = length (resources w)"
    "length (specularMapTextures w2) = M" "length (convolutionComputeCommands w2) = M"
    "\<And>r. r < length (resources w) \<Longrightarrow> r \<noteq> cm \<Longrightarrow> resources w2 ! r = resources w ! r"
    using a by (simp_all add: w2_def modifyResource_def M_def)
  have "mipChainFresh (resources w2) M ((1 - 1) * 6) w2"
    using w2 by (simp add: mipChainFresh_def)
  then have "mipChainFresh (resources w2) M ((mipmapLevels w - 1) * 6) w'"
    unfolding w'_def using a by (intro mipChainFresh_levels) (simp_all add: M_def)
  then have inv: "mipChainFresh (resources w2) M M w'" by (simp add: M_def)
  have pre: "prefix (resources w2) (resources w')"
    and lenM: "length (specularMapTextures w') = M"
    and fresh: "\<And>k. k < M \<Longrightarrow>
      (case array_get (specularMapTextures w') k of
           None \<Rightarrow> False
         | Some t \<Rightarrow>
             length (resources w2) \<le> t \<and> t < length (resources w') \<and>
             kind (resources w' ! t) = TextureK \<and> \<not> destroyed (resources w' ! t))"
    using inv by (simp_all add: mipChainFresh_def)
  have "length (resources w2) \<le> length (resources w')"
    using pre by (rule prefix_length_le)
  then have 1: "length (resources w) \<le> length (resources w')"
    using w2(1) by simp
  obtain zs where zs: "resources w' = resources w2 @ zs"
    using pre by (auto simp: prefix_def)
  have 2: "\<forall>r < length (resources w). r \<noteq> cm \<longrightarrow> resources w' ! r = resources w ! r"
    using w2(1) w2(4) by (simp add: zs nth_append)
  have 3: "\<forall>index < M.
            \<exists>t. specularMapTextures w' ! index = Some t
              \<and> length (resources w) \<le> t \<and> t < length (resources w')
              \<and> kind (resources w' ! t) = TextureK \<and> \<not> destroyed (resources w' ! t)"
  proof (intro allI impI)
    fix index
    assume i: "index < M"
    show "\<exists>t. specularMapTextures w' ! index = Some t
              \<and> length (resources w) \<le> t \<and> t < length (resources w')
              \<and> kind (resources w' ! t) = TextureK \<and> \<not> destroyed (resources w' ! t)"
    proof (cases "specularMapTextures w' ! index")
      case None
      then show ?thesis using fresh [OF i] i lenM by (simp add: array_get_def)
    next
      case (Some t)
      then show ?thesis using fresh [OF i] i lenM w2(1) by (simp add: array_get_def)
    qed
  qed
  show "\<exists>w'. updateSpecularMaps fs w = Inr w'
      \<and> length (resources w') \<ge> length (resources w)
      \<and> (\<forall>r < length (resources w). r \<noteq> cm \<longrightarrow> resources w' ! r = resources w ! r)
      \<and> (\<forall>index < (mipmapLevels w - 1) * 6.
            \<exists>t. specularMapTextures w' ! index = Some t
              \<and> length (resources w) \<le> t \<and> t < length (resources w')
              \<and> kind (resources w' ! t) = TextureK \<and> \<not> destroyed (resources w' ! t))"
    using eq 1 2 3 unfolding M_def by (intro exI [of _ w'] conjI)
qed

theorem mip_chain_reallocated_witness:
  "specularMapTextures secondCycle = [Some 14, Some 17, Some 18, Some 19, Some 20, Some 21]
   \<and> kind (resources secondCycle ! 14) = TextureK
   \<and> \<not> destroyed (resources secondCycle ! 14)
   \<and> (\<exists>w'. updateSpecularMaps (frameAt 5000) secondCycle = Inr w'
         \<and> (\<exists>t. specularMapTextures w' ! 0 = Some t \<and> 31 \<le> t
                \<and> kind (resources w' ! t) = TextureK)
         \<and> resources w' ! 14 = resources secondCycle ! 14)
   \<and> \<not> destroyed (resources (destroy (afterUpdate secondCycle)) ! 14)"
proof -
  have d: "\<not> destroyed (resources (destroy (afterUpdate secondCycle)) ! 14)"
    by code_simp
  have h: "radianceCubeMap secondCycle = Some 0 \<and> 1 \<le> mipmapLevels secondCycle
   \<and> length (convolutionComputeCommands secondCycle) = (mipmapLevels secondCycle - 1) * 6
   \<and> length (specularMapTextures secondCycle) = (mipmapLevels secondCycle - 1) * 6"
    by code_simp
  have e: "mipmapLevels secondCycle = 2" "length (resources secondCycle) = 31"
    by code_simp+
  have s: "specularMapTextures secondCycle
      = [Some 14, Some 17, Some 18, Some 19, Some 20, Some 21]"
    "kind (resources secondCycle ! 14) = TextureK"
    "\<not> destroyed (resources secondCycle ! 14)"
    by code_simp+
  obtain w' where w': "updateSpecularMaps (frameAt 5000) secondCycle = Inr w'"
    "\<And>r. r < length (resources secondCycle) \<Longrightarrow> r \<noteq> 0 \<Longrightarrow>
       resources w' ! r = resources secondCycle ! r"
    "\<And>index. index < (mipmapLevels secondCycle - 1) * 6 \<Longrightarrow>
       \<exists>t. specularMapTextures w' ! index = Some t
              \<and> length (resources secondCycle) \<le> t \<and> t < length (resources w')
              \<and> kind (resources w' ! t) = TextureK \<and> \<not> destroyed (resources w' ! t)"
    using mp [OF mip_chain_reallocated [of secondCycle 0 "frameAt 5000"] h] by blast
  have "resources w' ! 14 = resources secondCycle ! 14"
    using w'(2) [of 14] e by simp
  moreover have "\<exists>t. specularMapTextures w' ! 0 = Some t \<and> 31 \<le> t
                \<and> kind (resources w' ! t) = TextureK"
    using w'(3) [of 0] e by auto
  ultimately show ?thesis using s w'(1) d by blast
qed

end
